theory Spec2Isabelle
  imports Complex_Main "HOL-Library.Multiset"
begin

section \<open>Data model\<close>

text \<open>
  A JavaScript number is an IEEE 754 double. The finite doubles are rationals, so numbers
  are values of type \<open>rat\<close>, and every arithmetic operation of the source rounds its exact
  result to a double (section Arithmetic). \<open>NaN\<close> and the infinities are outside the
  model. A field that may be missing on an object (\<open>undefined\<close>) is an \<open>option\<close>.
\<close>

text \<open>The five category keys returned by \<open>determineCategory\<close> (strings in the source).\<close>

datatype category = AiHigh | AiLow | LowScore | GradedOnce | Graded2Plus

text \<open>The \<open>thresholds\<close> / \<open>parameters\<close> object.\<close>

record thresholds =
  aiConfidenceThreshold :: rat
  studentScoreThreshold :: rat

text \<open>
  A grade entry of a student. Only the fields read by the categorisation code are kept
  (\<open>score\<close> and \<open>comment\<close> are never read there).
\<close>

record grade =
  questionId :: string
  confidence :: "rat option"
  aiSuggestedScore :: "rat option"
  manualStatus :: "rat option"

record student =
  student_id :: string
  student_name :: string
  grades :: "grade list option"

text \<open>A question; a subquestion has the same shape.\<close>

datatype question =
  Question (question_id: string) (points: "rat option") (subquestions: "question list option")

record repository =
  questions :: "question list option"
  studentSubmissions :: "student list option"

section \<open>Arithmetic\<close>

text \<open>\<open>ilog2 n\<close> is the position of the leading bit of \<open>n\<close>: the floor of its binary logarithm.\<close>

fun ilog2 :: "nat \<Rightarrow> nat" where
  "ilog2 n = (if n < 2 then 0 else Suc (ilog2 (n div 2)))"

declare ilog2.simps [simp del]

text \<open>The binary exponent of a positive rational \<open>x\<close>: the \<open>e\<close> with \<open>2^e \<le> x < 2^(e+1)\<close>.\<close>

definition exponentOf :: "rat \<Rightarrow> int" where
  "exponentOf x =
     (if 1 \<le> x then int (ilog2 (nat \<lfloor>x\<rfloor>))
      else (let k = int (ilog2 (nat \<lfloor>1 / x\<rfloor>)) in
            if x = 2 powi (- k) then - k else - k - 1))"

text \<open>Rounding to the nearest integer, a tie going to the even one.\<close>

definition roundHalfEven :: "rat \<Rightarrow> int" where
  "roundHalfEven m =
     (let f = \<lfloor>m\<rfloor>; d = m - of_int f in
      if d < 1 / 2 then f
      else if 1 / 2 < d then f + 1
      else if even f then f else f + 1)"

text \<open>
  A rounding takes the exact result of an operation to the number the operation returns.
  \<open>double\<close> is the rounding of the source: to the nearest double, ties to even, with 53
  significant bits and gradual underflow below \<open>2^-1022\<close> (the spacing never gets finer than
  \<open>2^-1074\<close>). A result beyond the largest double, which JavaScript turns into an infinity,
  is outside the model. \<open>exact\<close> does not round: it is the exact rational arithmetic the
  specification compares the computed values with.
\<close>

type_synonym rounding = "rat \<Rightarrow> rat"

definition double :: rounding where
  "double x =
     (if x = 0 then 0
      else (let e = max (exponentOf \<bar>x\<bar>) (- 1022);
                q = 2 powi (e - 52)
            in sgn x * of_int (roundHalfEven (\<bar>x\<bar> / q)) * q))"

definition exact :: rounding where
  "exact x = x"

text \<open>The operators \<open>+\<close>, \<open>*\<close> and \<open>/\<close> of the source under a rounding.\<close>

definition fadd :: "rounding \<Rightarrow> rat \<Rightarrow> rat \<Rightarrow> rat" where
  "fadd rnd a b = rnd (a + b)"

definition fmul :: "rounding \<Rightarrow> rat \<Rightarrow> rat \<Rightarrow> rat" where
  "fmul rnd a b = rnd (a * b)"

definition fdiv :: "rounding \<Rightarrow> rat \<Rightarrow> rat \<Rightarrow> rat" where
  "fdiv rnd a b = rnd (a / b)"

section \<open>Category classifier (grading-logic.js)\<close>

text \<open>\<open>maxPoints > 0 ? (score / maxPoints) * 100 : 0\<close>\<close>

definition scorePercentage :: "rounding \<Rightarrow> rat \<Rightarrow> rat \<Rightarrow> rat" where
  "scorePercentage rnd score maxPoints =
     (if maxPoints > 0 then fmul rnd (fdiv rnd score maxPoints) 100 else 0)"

definition determineCategory :: "rounding \<Rightarrow> rat \<Rightarrow> rat \<Rightarrow> rat \<Rightarrow> rat \<Rightarrow> thresholds \<Rightarrow> category" where
  "determineCategory rnd conf score maxPoints mStatus th =
     (if mStatus \<ge> 2 then Graded2Plus
      else if mStatus = 1 then GradedOnce
      else if conf < aiConfidenceThreshold th then AiLow
      else if scorePercentage rnd score maxPoints < studentScoreThreshold th then LowScore
      else AiHigh)"

text \<open>
  The classifier as the specification words it: six numbered steps, the first matching
  one decides; its percentage formula is evaluated in the arithmetic of the program.
  Each step is a guard with its outcome; \<open>None\<close> means the step does not apply and the
  next one is tried.
\<close>

datatype spec_step = Decide "bool" category | Otherwise category

fun first_match :: "spec_step list \<Rightarrow> category option" where
  "first_match [] = None"
| "first_match (Decide c k # rest) = (if c then Some k else first_match rest)"
| "first_match (Otherwise k # rest) = Some k"

definition classify_spec :: "rounding \<Rightarrow> rat \<Rightarrow> rat \<Rightarrow> rat \<Rightarrow> rat \<Rightarrow> thresholds \<Rightarrow> category option" where
  "classify_spec rnd conf score maxPoints mStatus th =
     (let pct = (if maxPoints > 0 then fmul rnd (fdiv rnd score maxPoints) 100 else 0) in
      first_match
        [Decide (mStatus \<ge> 2) Graded2Plus,
         Decide (mStatus = 1) GradedOnce,
         Decide (conf < aiConfidenceThreshold th) AiLow,
         Decide (pct < studentScoreThreshold th) LowScore,
         Otherwise AiHigh])"

section \<open>Statistics aggregator (grading-logic.js)\<close>

text \<open>
  The model follows the \<open>calculateGradingStats\<close> that calls \<open>determineCategory\<close> and reads
  \<open>grade.manualStatus\<close>. (The file also carries a second variant that derives the manual
  status from \<open>gradingHistory\<close>; its loops, weights and counters are the same.)
\<close>

text \<open>
  The five counters shared by \<open>globalStats\<close> and by every \<open>questionStats\<close> entry;
  \<open>globalStats\<close> adds \<open>totalWeight\<close>, an entry of \<open>questionStats\<close> adds \<open>totalCount\<close>.
\<close>

record counts =
  aiHigh :: rat
  aiLow :: rat
  lowScore :: rat
  gradedOnce :: rat
  graded2Plus :: rat

record global_stats = counts +
  totalWeight :: rat

record question_stat = counts +
  totalCount :: rat

text \<open>The returned object \<open>{ globalStats, questionStats }\<close>; \<open>questionStats\<close> is keyed by question id.\<close>

record grading_stats =
  globalStats :: global_stats
  questionStats :: "string \<rightharpoonup> question_stat"

text \<open>
  \<open>v || 0\<close> and \<open>v ?? 0\<close> on a numeric field that may be missing: both give 0 for a
  missing field and the number itself otherwise (\<open>0 || 0\<close> is 0).
\<close>

definition orZero :: "rat option \<Rightarrow> rat" where
  "orZero v = (case v of None \<Rightarrow> 0 | Some x \<Rightarrow> x)"

text \<open>\<open>obj[category] += d\<close> on an object with the five counters.\<close>

definition addTo :: "rounding \<Rightarrow> category \<Rightarrow> rat \<Rightarrow> 'a counts_scheme \<Rightarrow> 'a counts_scheme" where
  "addTo rnd cat d r =
     (case cat of
        AiHigh \<Rightarrow> r\<lparr>aiHigh := fadd rnd (aiHigh r) d\<rparr>
      | AiLow \<Rightarrow> r\<lparr>aiLow := fadd rnd (aiLow r) d\<rparr>
      | LowScore \<Rightarrow> r\<lparr>lowScore := fadd rnd (lowScore r) d\<rparr>
      | GradedOnce \<Rightarrow> r\<lparr>gradedOnce := fadd rnd (gradedOnce r) d\<rparr>
      | Graded2Plus \<Rightarrow> r\<lparr>graded2Plus := fadd rnd (graded2Plus r) d\<rparr>)"

text \<open>
  The helper \<open>findGrade\<close>: the first submission with the given student id, then the first
  of its grades with the given question id; \<open>None\<close> is the source's \<open>null\<close> / \<open>undefined\<close>.
\<close>

definition findGrade :: "student list \<Rightarrow> string \<Rightarrow> string \<Rightarrow> grade option" where
  "findGrade submissions studentId qId =
     (case find (\<lambda>s. student_id s = studentId) submissions of
        None \<Rightarrow> None
      | Some st \<Rightarrow>
          (case grades st of
             None \<Rightarrow> None
           | Some gs \<Rightarrow> find (\<lambda>g. questionId g = qId) gs))"

text \<open>
  The category the innermost loop body computes for one (item, student) pair:
  \<open>'aiLow'\<close> unless a grade is found, then the classifier on the grade's fields.
\<close>

definition pairCategory ::
  "rounding \<Rightarrow> student list \<Rightarrow> thresholds \<Rightarrow> string \<Rightarrow> rat \<Rightarrow> student \<Rightarrow> category" where
  "pairCategory rnd submissions parameters itemId maxPoints st =
     (case findGrade submissions (student_id st) itemId of
        None \<Rightarrow> AiLow
      | Some g \<Rightarrow>
          determineCategory rnd (orZero (confidence g)) (orZero (aiSuggestedScore g)) maxPoints
            (orZero (manualStatus g)) parameters)"

text \<open>
  An in-place update of \<open>questionStats[k]\<close>. The entry is created at the top of the
  iteration of the question with id \<open>k\<close>, before any update, so it is always present
  (\<open>questionStep\<close> below sets it before it runs the loop over the items); on a missing
  entry, which the source never meets, the map is left as it is.
\<close>

definition updEntry ::
  "(string \<rightharpoonup> question_stat) \<Rightarrow> string \<Rightarrow> (question_stat \<Rightarrow> question_stat)
     \<Rightarrow> (string \<rightharpoonup> question_stat)" where
  "updEntry qs k f = (case qs k of None \<Rightarrow> qs | Some e \<Rightarrow> qs(k \<mapsto> f e))"

text \<open>The body of \<open>repository.studentSubmissions.forEach(student => ...)\<close>.\<close>

definition studentStep ::
  "rounding \<Rightarrow> student list \<Rightarrow> thresholds \<Rightarrow> string \<Rightarrow> rat \<Rightarrow> string \<Rightarrow> rat \<Rightarrow> student
     \<Rightarrow> grading_stats \<Rightarrow> grading_stats" where
  "studentStep rnd submissions parameters qId weightPerSubItem itemId maxPoints st acc =
     (let cat = pairCategory rnd submissions parameters itemId maxPoints st;
          qs = updEntry (questionStats acc) qId
                 (\<lambda>e. (addTo rnd cat 1 e)\<lparr>totalCount := fadd rnd (totalCount e) 1\<rparr>);
          contribution = fmul rnd (fdiv rnd 1 (of_nat (length submissions))) weightPerSubItem;
          g = addTo rnd cat contribution (globalStats acc)
      in \<lparr>globalStats = g\<lparr>totalWeight := fadd rnd (totalWeight g) contribution\<rparr>,
          questionStats = qs\<rparr>)"

text \<open>The body of \<open>subItems.forEach(item => ...)\<close>.\<close>

definition itemStep ::
  "rounding \<Rightarrow> student list \<Rightarrow> thresholds \<Rightarrow> string \<Rightarrow> rat \<Rightarrow> question
     \<Rightarrow> grading_stats \<Rightarrow> grading_stats" where
  "itemStep rnd submissions parameters qId weightPerSubItem item acc =
     (let itemId = question_id item;
          maxPoints = orZero (points item)
      in fold (studentStep rnd submissions parameters qId weightPerSubItem itemId maxPoints)
           submissions acc)"

text \<open>\<open>isParent ? question.subquestions : [question]\<close>\<close>

definition subItems :: "question \<Rightarrow> question list" where
  "subItems q =
     (case subquestions q of
        None \<Rightarrow> [q]
      | Some [] \<Rightarrow> [q]
      | Some (s # ss) \<Rightarrow> s # ss)"

definition emptyStat :: question_stat where
  "emptyStat = \<lparr>aiHigh = 0, aiLow = 0, lowScore = 0, gradedOnce = 0, graded2Plus = 0,
                 totalCount = 0\<rparr>"

text \<open>The conversion of the raw counts to percentages, guarded by \<open>total > 0\<close>.\<close>

definition toPercentages :: "rounding \<Rightarrow> question_stat \<Rightarrow> question_stat" where
  "toPercentages rnd e =
     (let total = totalCount e in
      if total > 0 then
        e\<lparr>aiHigh := fmul rnd (fdiv rnd (aiHigh e) total) 100,
          aiLow := fmul rnd (fdiv rnd (aiLow e) total) 100,
          lowScore := fmul rnd (fdiv rnd (lowScore e) total) 100,
          gradedOnce := fmul rnd (fdiv rnd (gradedOnce e) total) 100,
          graded2Plus := fmul rnd (fdiv rnd (graded2Plus e) total) 100\<rparr>
      else e)"

text \<open>The body of \<open>repository.questions.forEach(question => ...)\<close>.\<close>

definition questionStep ::
  "rounding \<Rightarrow> student list \<Rightarrow> thresholds \<Rightarrow> rat \<Rightarrow> question \<Rightarrow> grading_stats \<Rightarrow> grading_stats" where
  "questionStep rnd submissions parameters weightPerQuestion q acc =
     (let items = subItems q;
          weightPerSubItem = fdiv rnd weightPerQuestion (of_nat (length items));
          acc1 = acc\<lparr>questionStats := (questionStats acc)(question_id q \<mapsto> emptyStat)\<rparr>;
          acc2 = fold (itemStep rnd submissions parameters (question_id q) weightPerSubItem)
                   items acc1
      in acc2\<lparr>questionStats := updEntry (questionStats acc2) (question_id q) (toPercentages rnd)\<rparr>)"

definition initialStats :: grading_stats where
  "initialStats =
     \<lparr>globalStats = \<lparr>aiHigh = 0, aiLow = 0, lowScore = 0, gradedOnce = 0, graded2Plus = 0,
                      totalWeight = 0\<rparr>,
      questionStats = Map.empty\<rparr>"

text \<open>
  \<open>calculateGradingStats\<close>; \<open>None\<close> is the returned \<open>null\<close>. An empty array is truthy in
  JavaScript, so only a missing (or null) field takes the guard. The quotients
  \<open>100 / numQuestions\<close> and \<open>1 / studentSubmissions.length\<close> are only used inside loops
  over the respective arrays, so a zero divisor never reaches a result. An array length
  is below \<open>2^32\<close> and so is a double.
\<close>

definition calculateGradingStats :: "rounding \<Rightarrow> repository option \<Rightarrow> thresholds \<Rightarrow> grading_stats option" where
  "calculateGradingStats rnd repo parameters =
     (case repo of
        None \<Rightarrow> None
      | Some r \<Rightarrow>
          (case questions r of
             None \<Rightarrow> None
           | Some qs \<Rightarrow>
               (case studentSubmissions r of
                  None \<Rightarrow> None
                | Some submissions \<Rightarrow>
                    (let numQuestions = length qs;
                         weightPerQuestion = fdiv rnd 100 (of_nat numQuestions)
                     in Some (fold (questionStep rnd submissions parameters weightPerQuestion)
                                qs initialStats)))))"

section \<open>Triage list builder (grading-view.js)\<close>

text \<open>
  The two thresholds \<open>getCategory\<close> reads from \<open>localStorage\<close> on every call, as
  \<open>parseInt\<close> returns them for a stored decimal integer; \<open>None\<close> is a key that is absent
  (or stored as the empty string), for which the source falls back to \<open>'80'\<close> and \<open>'50'\<close>.
\<close>

record local_storage =
  stored_aiConfidenceThreshold :: "int option"
  stored_studentScoreThreshold :: "int option"

text \<open>An entry of \<open>allItems\<close>.\<close>

record exam_item =
  taskName :: string
  item_confidence :: rat
  item_category :: int
  studentName :: string
  item_questionId :: string

datatype js_error = TypeError

text \<open>
  What \<open>renderStudentExamsList\<close> leaves in the list element: the "No exam data loaded"
  placeholder with count 0, or the sorted items (the count is their number).
\<close>

datatype exam_list_view = NoExamData | ExamList "exam_item list"

definition getCategoryCode :: "category \<Rightarrow> int" where
  "getCategoryCode c =
     (case c of
        Graded2Plus \<Rightarrow> 4
      | GradedOnce \<Rightarrow> 3
      | AiHigh \<Rightarrow> 2
      | LowScore \<Rightarrow> 1
      | AiLow \<Rightarrow> 0)"

definition storedThresholds :: "local_storage \<Rightarrow> thresholds" where
  "storedThresholds storage =
     \<lparr>aiConfidenceThreshold =
        of_int (case stored_aiConfidenceThreshold storage of None \<Rightarrow> 80 | Some t \<Rightarrow> t),
      studentScoreThreshold =
        of_int (case stored_studentScoreThreshold storage of None \<Rightarrow> 50 | Some t \<Rightarrow> t)\<rparr>"

definition getCategory :: "rounding \<Rightarrow> local_storage \<Rightarrow> rat \<Rightarrow> rat \<Rightarrow> rat \<Rightarrow> rat \<Rightarrow> int" where
  "getCategory rnd storage conf score maxPoints mStatus =
     getCategoryCode (determineCategory rnd conf score maxPoints mStatus (storedThresholds storage))"

text \<open>\<open>student.grades?.find(g => g.questionId === id)\<close>\<close>

definition gradeOf :: "student \<Rightarrow> string \<Rightarrow> grade option" where
  "gradeOf st qId =
     (case grades st of
        None \<Rightarrow> None
      | Some gs \<Rightarrow> find (\<lambda>g. questionId g = qId) gs)"

text \<open>\<open>grade?.field ?? 0\<close> and \<open>grade?.field || 0\<close>\<close>

definition fieldOrZero :: "grade option \<Rightarrow> (grade \<Rightarrow> rat option) \<Rightarrow> rat" where
  "fieldOrZero g field = (case g of None \<Rightarrow> 0 | Some gr \<Rightarrow> orZero (field gr))"

text \<open>
  The confidence and the category the builder computes for a gradable item (a
  subquestion, or a standalone question) of a student.
\<close>

definition itemConfidence :: "student \<Rightarrow> question \<Rightarrow> rat" where
  "itemConfidence st item = fieldOrZero (gradeOf st (question_id item)) confidence"

definition itemCategory :: "rounding \<Rightarrow> local_storage \<Rightarrow> student \<Rightarrow> question \<Rightarrow> int" where
  "itemCategory rnd storage st item =
     (let g = gradeOf st (question_id item) in
      getCategory rnd storage (fieldOrZero g confidence) (fieldOrZero g aiSuggestedScore)
        (orZero (points item)) (fieldOrZero g manualStatus))"

text \<open>
  \<open>Math.min(x, ...xs)\<close> with at least one argument. The source only calls \<open>Math.min\<close> on
  the spread of \<open>subCategories\<close> and of \<open>subConfidences\<close>, the arrays holding one value
  per element of a non-empty \<open>subquestions\<close>.
\<close>

fun Math_min :: "'a::linorder \<Rightarrow> 'a list \<Rightarrow> 'a" where
  "Math_min x [] = x"
| "Math_min x (y # ys) = Math_min (min x y) ys"

definition mkItem :: "student \<Rightarrow> string \<Rightarrow> rat \<Rightarrow> int \<Rightarrow> exam_item" where
  "mkItem st qId conf cat =
     \<lparr>taskName = student_name st @ '' - '' @ qId,
      item_confidence = conf,
      item_category = cat,
      studentName = student_name st,
      item_questionId = qId\<rparr>"

text \<open>The entry pushed for a subquestion: its own confidence and category.\<close>

definition subEntry :: "rounding \<Rightarrow> local_storage \<Rightarrow> student \<Rightarrow> question \<Rightarrow> exam_item" where
  "subEntry rnd storage st sub =
     mkItem st (question_id sub) (itemConfidence st sub) (itemCategory rnd storage st sub)"

text \<open>
  The body of \<open>repository.questions.forEach(question => ...)\<close>: the entries it pushes onto
  \<open>allItems\<close>, in order. An empty \<open>selectedQuestion\<close> is falsy: no question filter.
\<close>

definition questionEntries :: "rounding \<Rightarrow> local_storage \<Rightarrow> string \<Rightarrow> student \<Rightarrow> question \<Rightarrow> exam_item list" where
  "questionEntries rnd storage selectedQuestion st q =
     (let qId = question_id q;
          parentEntry = (\<lambda>parentConfidence parentCategory.
            if selectedQuestion = [] \<or> qId = selectedQuestion
            then [mkItem st qId parentConfidence parentCategory] else []);
          standalone =
            (if selectedQuestion \<noteq> [] \<and> qId \<noteq> selectedQuestion then []
             else parentEntry (itemConfidence st q) (itemCategory rnd storage st q))
      in case subquestions q of
           None \<Rightarrow> standalone
         | Some [] \<Rightarrow> standalone
         | Some (s # ss) \<Rightarrow>
             (let parentCategory =
                    Math_min (itemCategory rnd storage st s) (map (itemCategory rnd storage st) ss);
                  parentConfidence =
                    Math_min (itemConfidence st s) (map (itemConfidence st) ss)
              in map (subEntry rnd storage st)
                   (filter (\<lambda>sub. \<not> (selectedQuestion \<noteq> [] \<and> question_id sub \<noteq> selectedQuestion))
                      (s # ss))
                 @ parentEntry parentConfidence parentCategory))"

text \<open>
  The body of \<open>repository.studentSubmissions.forEach(student => ...)\<close>; an empty
  \<open>selectedStudent\<close> is no student filter.
\<close>

definition studentEntries ::
  "rounding \<Rightarrow> local_storage \<Rightarrow> string \<Rightarrow> string \<Rightarrow> question list \<Rightarrow> student \<Rightarrow> exam_item list" where
  "studentEntries rnd storage selectedQuestion selectedStudent qs st =
     (if selectedStudent \<noteq> [] \<and> student_name st \<noteq> selectedStudent then []
      else concat (map (questionEntries rnd storage selectedQuestion st) qs))"

text \<open>
  The comparator passed to \<open>allItems.sort\<close>. Only the sign of its result is used, and the
  sign of a rounded difference of two doubles is the sign of the exact difference
  (gradual underflow: the difference of two distinct doubles never rounds to zero), so
  the differences are not rounded here.
\<close>

definition compareItems :: "exam_item \<Rightarrow> exam_item \<Rightarrow> rat" where
  "compareItems a b =
     (if item_category a \<noteq> item_category b
      then of_int (item_category a) - of_int (item_category b)
      else item_confidence a - item_confidence b)"

text \<open>
  \<open>Array.prototype.sort(compareFn)\<close> is a stable sort; it is modelled by a stable
  insertion sort driven by the comparator: \<open>x\<close> goes before the first \<open>y\<close> with
  \<open>compareFn(x, y) \<le> 0\<close>.
\<close>

fun insertBy :: "('a \<Rightarrow> 'a \<Rightarrow> rat) \<Rightarrow> 'a \<Rightarrow> 'a list \<Rightarrow> 'a list" where
  "insertBy cmp x [] = [x]"
| "insertBy cmp x (y # ys) = (if cmp x y \<le> 0 then x # y # ys else y # insertBy cmp x ys)"

definition sortBy :: "('a \<Rightarrow> 'a \<Rightarrow> rat) \<Rightarrow> 'a list \<Rightarrow> 'a list" where
  "sortBy cmp xs = foldr (insertBy cmp) xs []"

text \<open>All entries pushed onto \<open>allItems\<close>, before sorting.\<close>

definition allItems ::
  "rounding \<Rightarrow> local_storage \<Rightarrow> string \<Rightarrow> string \<Rightarrow> question list \<Rightarrow> student list \<Rightarrow> exam_item list" where
  "allItems rnd storage selectedQuestion selectedStudent qs submissions =
     concat (map (studentEntries rnd storage selectedQuestion selectedStudent qs) submissions)"

text \<open>
  \<open>renderStudentExamsList\<close>, with the two filter values and the stored thresholds as
  parameters; the page elements it reads and writes are taken to exist. The guard covers
  a missing repository and a missing \<open>questions\<close>; a repository with \<open>questions\<close> but
  without \<open>studentSubmissions\<close> reaches \<open>repository.studentSubmissions.forEach\<close>, which
  throws a TypeError.
\<close>

definition renderStudentExamsList ::
  "rounding \<Rightarrow> local_storage \<Rightarrow> string \<Rightarrow> string \<Rightarrow> repository option \<Rightarrow> js_error + exam_list_view" where
  "renderStudentExamsList rnd storage selectedQuestion selectedStudent repo =
     (case repo of
        None \<Rightarrow> Inr NoExamData
      | Some r \<Rightarrow>
          (case questions r of
             None \<Rightarrow> Inr NoExamData
           | Some qs \<Rightarrow>
               (case studentSubmissions r of
                  None \<Rightarrow> Inl TypeError
                | Some submissions \<Rightarrow>
                    Inr (ExamList (sortBy compareItems
                      (allItems rnd storage selectedQuestion selectedStudent qs submissions))))))"

section \<open>Notions used to state the properties\<close>

text \<open>
  The smallest normal double, and the unit roundoff of doubles: a result of magnitude at
  least \<open>minNormal\<close> is rounded with a relative error of at most \<open>unitRoundoff\<close>.
\<close>

definition minNormal :: rat where
  "minNormal = 2 powi (- 1022)"

definition unitRoundoff :: rat where
  "unitRoundoff = 1 / 2 ^ 53"

text \<open>
  \<open>approxBy k y x\<close>: the computed value \<open>x\<close> approximates the exact, non-negative value \<open>y\<close>
  with the error of at most \<open>k\<close> successive roundings.
\<close>

definition approxBy :: "nat \<Rightarrow> rat \<Rightarrow> rat \<Rightarrow> bool" where
  "approxBy k y x = (y * (1 - unitRoundoff) ^ k \<le> x \<and> x \<le> y * (1 + unitRoundoff) ^ k)"

text \<open>The number of (gradable item, student) pairs the aggregator processes.\<close>

definition pairCount :: "question list \<Rightarrow> student list \<Rightarrow> nat" where
  "pairCount qs submissions =
     sum_list (map (\<lambda>q. length (subItems q) * length submissions) qs)"

text \<open>
  The exact sums the computed totals of \<open>globalStats\<close> stand for: \<open>s c\<close> is the exact sum of
  the contributions added to category \<open>c\<close> so far, and after \<open>m\<close> roundings each computed
  total approximates its exact sum, \<open>totalWeight\<close> the sum of all of them.
\<close>

definition ghostTotal :: "(category \<Rightarrow> rat) \<Rightarrow> rat" where
  "ghostTotal s = s AiHigh + s AiLow + s LowScore + s GradedOnce + s Graded2Plus"

definition approxStats :: "nat \<Rightarrow> (category \<Rightarrow> rat) \<Rightarrow> global_stats \<Rightarrow> bool" where
  "approxStats m s g =
     ((\<forall>c. 0 \<le> s c)
      \<and> approxBy m (s AiHigh) (aiHigh g) \<and> approxBy m (s AiLow) (aiLow g)
      \<and> approxBy m (s LowScore) (lowScore g) \<and> approxBy m (s GradedOnce) (gradedOnce g)
      \<and> approxBy m (s Graded2Plus) (graded2Plus g)
      \<and> approxBy m (ghostTotal s) (totalWeight g))"

definition approxTotal :: "nat \<Rightarrow> rat \<Rightarrow> grading_stats \<Rightarrow> bool" where
  "approxTotal m S acc = (\<exists>s. approxStats m s (globalStats acc) \<and> ghostTotal s = S)"

text \<open>The sum of the five category counters of a statistics object.\<close>

definition sum5 :: "'a counts_scheme \<Rightarrow> rat" where
  "sum5 r = aiHigh r + aiLow r + lowScore r + gradedOnce r + graded2Plus r"

text \<open>The running total of \<open>globalStats\<close> agrees with its five counters.\<close>

definition balanced :: "grading_stats \<Rightarrow> bool" where
  "balanced acc = (totalWeight (globalStats acc) = sum5 (globalStats acc))"

text \<open>
  While the question with id \<open>k\<close> is processed, its entry holds raw counts that add up to
  \<open>totalCount\<close>, and every other entry is as it was (\<open>qs0\<close>) when the question started.
\<close>

definition rawEntry :: "string \<Rightarrow> (string \<rightharpoonup> question_stat) \<Rightarrow> grading_stats \<Rightarrow> bool" where
  "rawEntry k qs0 acc =
     ((\<exists>e. questionStats acc k = Some e \<and> sum5 e = totalCount e)
      \<and> (\<forall>k'. k' \<noteq> k \<longrightarrow> questionStats acc k' = qs0 k'))"

text \<open>
  The same while counting in doubles: the five counters and \<open>totalCount\<close> hold natural
  numbers, \<open>j\<close> pairs have been counted, and the counters add up to \<open>j\<close>.
\<close>

definition rawCounts :: "nat \<Rightarrow> question_stat \<Rightarrow> bool" where
  "rawCounts j e =
     (\<exists>a b c d g :: nat.
        aiHigh e = of_nat a \<and> aiLow e = of_nat b \<and> lowScore e = of_nat c
        \<and> gradedOnce e = of_nat d \<and> graded2Plus e = of_nat g
        \<and> totalCount e = of_nat j \<and> a + b + c + d + g = j)"

definition countingEntry ::
  "string \<Rightarrow> (string \<rightharpoonup> question_stat) \<Rightarrow> nat \<Rightarrow> grading_stats \<Rightarrow> bool" where
  "countingEntry k qs0 j acc =
     ((\<exists>e. questionStats acc k = Some e \<and> rawCounts j e)
      \<and> (\<forall>k'. k' \<noteq> k \<longrightarrow> questionStats acc k' = qs0 k'))"

text \<open>
  Every finished entry with a positive \<open>totalCount\<close> holds percentages adding up to 100,
  exactly, or up to the rounding of the two operations that compute a percentage.
\<close>

definition pctNear :: "(string \<rightharpoonup> question_stat) \<Rightarrow> bool" where
  "pctNear qs =
     (\<forall>k e. qs k = Some e \<longrightarrow> 0 < totalCount e \<longrightarrow> \<bar>sum5 e - 100\<bar> \<le> 400 * unitRoundoff)"

text \<open>Every finished entry with a positive \<open>totalCount\<close> holds percentages adding up to 100.\<close>

definition pctOK :: "(string \<rightharpoonup> question_stat) \<Rightarrow> bool" where
  "pctOK qs = (\<forall>k e. qs k = Some e \<longrightarrow> 0 < totalCount e \<longrightarrow> sum5 e = 100)"

text \<open>The order the comparator induces: by category, then by confidence.\<close>

definition lexLe :: "exam_item \<Rightarrow> exam_item \<Rightarrow> bool" where
  "lexLe a b =
     (item_category a < item_category b
      \<or> (item_category a = item_category b \<and> item_confidence a \<le> item_confidence b))"

text \<open>The parent-level entry with the minima taken over the subquestions.\<close>

definition parentItem :: "rounding \<Rightarrow> local_storage \<Rightarrow> student \<Rightarrow> question \<Rightarrow> question list \<Rightarrow> exam_item" where
  "parentItem rnd storage st q subs =
     mkItem st (question_id q)
       (Min (set (map (itemConfidence st) subs)))
       (Min (set (map (itemCategory rnd storage st) subs)))"

text \<open>The student has no grade entry for the question id (or no \<open>grades\<close> array at all).\<close>

definition noGradeEntry :: "student \<Rightarrow> string \<Rightarrow> bool" where
  "noGradeEntry st qId =
     (case grades st of
        None \<Rightarrow> True
      | Some gs \<Rightarrow> qId \<notin> set (map questionId gs))"

text \<open>The repository is absent, or it lacks the given field.\<close>

definition lacksField :: "repository option \<Rightarrow> (repository \<Rightarrow> 'a option) \<Rightarrow> bool" where
  "lacksField repo field = (case repo of None \<Rightarrow> True | Some r \<Rightarrow> field r = None)"

section \<open>Example data\<close>

text \<open>
  The two scenarios of the specification. First: one question \<open>Q1\<close> worth 10 points and
  two students, A with a confident AI grade of 8 and B without any grade.
\<close>

definition exampleThresholds :: thresholds where
  "exampleThresholds = \<lparr>aiConfidenceThreshold = 80, studentScoreThreshold = 50\<rparr>"

definition studentA :: student where
  "studentA =
     \<lparr>student_id = ''a'', student_name = ''A'',
      grades = Some [\<lparr>questionId = ''Q1'', confidence = Some 90, aiSuggestedScore = Some 8,
                      manualStatus = Some 0\<rparr>]\<rparr>"

definition studentB :: student where
  "studentB = \<lparr>student_id = ''b'', student_name = ''B'', grades = None\<rparr>"

text \<open>A further submission without grades that carries the id of student A.\<close>

definition studentA2 :: student where
  "studentA2 = \<lparr>student_id = ''a'', student_name = ''A2'', grades = None\<rparr>"

definition questionQ1 :: question where
  "questionQ1 = Question ''Q1'' (Some 10) None"

definition exampleRepository :: repository where
  "exampleRepository =
     \<lparr>questions = Some [questionQ1], studentSubmissions = Some [studentA, studentB]\<rparr>"

text \<open>
  Second: one question \<open>Q1\<close> with subquestions \<open>Q1.A\<close> and \<open>Q1.B\<close> of 5 points each, and one
  student with \<open>Q1.A\<close> graded manually twice and no grade for \<open>Q1.B\<close>.
\<close>

definition studentC :: student where
  "studentC =
     \<lparr>student_id = ''c'', student_name = ''C'',
      grades = Some [\<lparr>questionId = ''Q1.A'', confidence = Some 90, aiSuggestedScore = Some 4,
                      manualStatus = Some 2\<rparr>]\<rparr>"

definition questionQ1A :: question where
  "questionQ1A = Question ''Q1.A'' (Some 5) None"

definition questionQ1B :: question where
  "questionQ1B = Question ''Q1.B'' (Some 5) None"

definition parentQ1 :: question where
  "parentQ1 = Question ''Q1'' None (Some [questionQ1A, questionQ1B])"

definition parentRepository :: repository where
  "parentRepository = \<lparr>questions = Some [parentQ1], studentSubmissions = Some [studentC]\<rparr>"

text \<open>No stored thresholds (the defaults 80 and 50 apply), and a stored confidence threshold of 0.\<close>

definition defaultStorage :: local_storage where
  "defaultStorage = \<lparr>stored_aiConfidenceThreshold = None, stored_studentScoreThreshold = None\<rparr>"

definition zeroStorage :: local_storage where
  "zeroStorage = \<lparr>stored_aiConfidenceThreshold = Some 0, stored_studentScoreThreshold = None\<rparr>"

text \<open>The statistics the specification expects for the first scenario.\<close>

definition exampleResult :: grading_stats where
  "exampleResult =
     \<lparr>globalStats = \<lparr>aiHigh = 50, aiLow = 50, lowScore = 0, gradedOnce = 0, graded2Plus = 0,
                      totalWeight = 100\<rparr>,
      questionStats =
        [''Q1'' \<mapsto> \<lparr>aiHigh = 50, aiLow = 50, lowScore = 0, gradedOnce = 0, graded2Plus = 0,
                     totalCount = 2\<rparr>]\<rparr>"

text \<open>The triage list the specification expects for the second scenario, in sorted order.\<close>

definition exampleItems :: "exam_item list" where
  "exampleItems =
     [mkItem studentC ''Q1.B'' 0 0, mkItem studentC ''Q1'' 0 0, mkItem studentC ''Q1.A'' 90 4]"

text \<open>Thresholds with a confidence threshold of 0, as parameters.\<close>

definition zeroThresholds :: thresholds where
  "zeroThresholds = \<lparr>aiConfidenceThreshold = 0, studentScoreThreshold = 50\<rparr>"

text \<open>
  Three standalone questions and three students: B without grades, D and E with a
  confident AI grade of 8 out of 10 for every question. And one question with students
  A, B and B.
\<close>

definition gradedStudent :: "string \<Rightarrow> student" where
  "gradedStudent n =
     \<lparr>student_id = n, student_name = n,
      grades = Some (map (\<lambda>q. \<lparr>questionId = q, confidence = Some 90,
                                 aiSuggestedScore = Some 8, manualStatus = Some 0\<rparr>)
                      [''Q1'', ''Q2'', ''Q3''])\<rparr>"

definition threeByThreeRepository :: repository where
  "threeByThreeRepository =
     \<lparr>questions = Some [Question ''Q1'' (Some 10) None, Question ''Q2'' (Some 10) None,
                         Question ''Q3'' (Some 10) None],
      studentSubmissions = Some [studentB, gradedStudent ''d'', gradedStudent ''e'']\<rparr>"

definition oneByThreeRepository :: repository where
  "oneByThreeRepository =
     \<lparr>questions = Some [questionQ1], studentSubmissions = Some [studentA, studentB, studentB]\<rparr>"

text \<open>
  The statistics computed in doubles for the question with students A, B and B: a third
  and two thirds, as rounded (33.33333333333333 and 66.66666666666666), and a total
  weight of 99.99999999999999.
\<close>

definition oneByThreeResult :: grading_stats where
  "oneByThreeResult =
     \<lparr>globalStats =
        \<lparr>aiHigh = 2345624805922133 / 70368744177664,
         aiLow = 2345624805922133 / 35184372088832,
         lowScore = 0, gradedOnce = 0, graded2Plus = 0,
         totalWeight = 7036874417766399 / 70368744177664\<rparr>,
      questionStats =
        [''Q1'' \<mapsto> \<lparr>aiHigh = 2345624805922133 / 70368744177664,
                     aiLow = 2345624805922133 / 35184372088832,
                     lowScore = 0, gradedOnce = 0, graded2Plus = 0, totalCount = 3\<rparr>]\<rparr>"

text \<open>The same statistics in exact arithmetic.\<close>

definition oneByThreeExact :: grading_stats where
  "oneByThreeExact =
     \<lparr>globalStats =
        \<lparr>aiHigh = 100 / 3, aiLow = 200 / 3, lowScore = 0, gradedOnce = 0, graded2Plus = 0,
         totalWeight = 100\<rparr>,
      questionStats =
        [''Q1'' \<mapsto> \<lparr>aiHigh = 100 / 3, aiLow = 200 / 3, lowScore = 0, gradedOnce = 0,
                     graded2Plus = 0, totalCount = 3\<rparr>]\<rparr>"

text \<open>A repository without top-level questions, and one without the \<open>questions\<close> field.\<close>

definition noQuestionsRepository :: repository where
  "noQuestionsRepository = \<lparr>questions = Some [], studentSubmissions = Some [studentB]\<rparr>"

definition missingQuestionsRepository :: repository where
  "missingQuestionsRepository = \<lparr>questions = None, studentSubmissions = Some [studentB]\<rparr>"

section \<open>Properties of the rounding to doubles\<close>

lemma ilog2_bounds: "0 < n \<Longrightarrow> 2 ^ ilog2 n \<le> n \<and> n < 2 ^ (ilog2 n + 1)"
proof (induction n rule: ilog2.induct)
  case (1 n)
  show ?case
  proof (cases "n < 2")
    case True
    with "1.prems" have "n = 1" by simp
    then show ?thesis by (simp add: ilog2.simps)
  next
    case False
    then have pos: "0 < n div 2" by simp
    from "1.IH"[OF False pos] have lo: "2 ^ ilog2 (n div 2) \<le> n div 2"
      and hi: "n div 2 < 2 ^ (ilog2 (n div 2) + 1)" by simp_all
    have e: "ilog2 n = Suc (ilog2 (n div 2))" using False by (subst ilog2.simps) simp
    have "2 * 2 ^ ilog2 (n div 2) \<le> 2 * (n div 2)" using lo by simp
    also have "\<dots> \<le> n" by simp
    finally have a: "2 ^ ilog2 n \<le> n" by (simp add: e)
    have "n < 2 * (n div 2) + 2" by linarith
    also have "\<dots> \<le> 2 * 2 ^ (ilog2 (n div 2) + 1)" using hi by simp
    finally have b: "n < 2 ^ (ilog2 n + 1)" by (simp add: e)
    from a b show ?thesis by simp
  qed
qed

lemma floor_log_bounds:
  fixes y :: rat
  assumes "1 \<le> y"
  shows "2 ^ ilog2 (nat \<lfloor>y\<rfloor>) \<le> y \<and> y < 2 ^ (ilog2 (nat \<lfloor>y\<rfloor>) + 1)"
proof -
  let ?n = "nat \<lfloor>y\<rfloor>"
  have f: "1 \<le> \<lfloor>y\<rfloor>" using assms by simp
  then have pos: "0 < ?n" by simp
  from ilog2_bounds[OF pos] have lo: "2 ^ ilog2 ?n \<le> ?n" and hi: "?n < 2 ^ (ilog2 ?n + 1)"
    by simp_all
  have n: "(of_nat ?n :: rat) = of_int \<lfloor>y\<rfloor>" using f by simp
  have "(2::rat) ^ ilog2 ?n = of_nat (2 ^ ilog2 ?n)" by simp
  also have "\<dots> \<le> of_nat ?n" using lo by (simp only: of_nat_le_iff)
  also have "\<dots> \<le> y" unfolding n by simp
  finally have a: "2 ^ ilog2 ?n \<le> y" .
  have "?n + 1 \<le> 2 ^ (ilog2 ?n + 1)" using hi by simp
  then have "(of_nat (?n + 1) :: rat) \<le> of_nat (2 ^ (ilog2 ?n + 1))" by (simp only: of_nat_le_iff)
  then have "of_int \<lfloor>y\<rfloor> + 1 \<le> (2::rat) ^ (ilog2 ?n + 1)" using n by simp
  moreover have "y < of_int \<lfloor>y\<rfloor> + 1" by linarith
  ultimately have b: "y < 2 ^ (ilog2 ?n + 1)" by linarith
  from a b show ?thesis by simp
qed

lemma exponentOf_bounds:
  assumes "0 < x"
  shows "2 powi exponentOf x \<le> x \<and> x < 2 powi (exponentOf x + 1)"
proof (cases "1 \<le> x")
  case True
  from floor_log_bounds[OF True] show ?thesis
    using True by (simp add: exponentOf_def power_int_add)
next
  case False
  let ?k = "ilog2 (nat \<lfloor>1 / x\<rfloor>)"
  have "1 \<le> 1 / x" using assms False by simp
  from floor_log_bounds[OF this] have lo: "2 ^ ?k \<le> 1 / x" and hi: "1 / x < 2 ^ (?k + 1)"
    by simp_all
  have up: "x \<le> 2 powi (- int ?k)"
    using lo assms by (simp add: power_int_minus_divide field_simps)
  have low: "2 powi (- int ?k - 1) < x"
  proof -
    have "1 < x * 2 ^ (?k + 1)" using hi assms by (simp add: field_simps)
    then have "1 / 2 ^ (?k + 1) < x" by (simp add: field_simps)
    moreover have "(2::rat) powi (- int ?k - 1) = 1 / 2 ^ (?k + 1)"
      by (simp add: power_int_diff power_int_minus_divide)
    ultimately show ?thesis by simp
  qed
  show ?thesis
  proof (cases "x = 2 powi (- int ?k)")
    case True
    then have e: "exponentOf x = - int ?k" using False by (simp add: exponentOf_def Let_def)
    have "(2::rat) powi (- int ?k) < 2 powi (- int ?k + 1)"
      by (rule power_int_strict_increasing) simp_all
    then show ?thesis unfolding e using True by simp
  next
    case ne: False
    then have e: "exponentOf x = - int ?k - 1" using False by (simp add: exponentOf_def Let_def)
    show ?thesis unfolding e using low up ne by simp
  qed
qed

lemma roundHalfEven_error: "\<bar>of_int (roundHalfEven m) - m\<bar> \<le> 1 / 2"
proof -
  have "of_int \<lfloor>m\<rfloor> \<le> m" "m < of_int \<lfloor>m\<rfloor> + 1" by linarith+
  then show ?thesis by (auto simp: roundHalfEven_def Let_def abs_le_iff)
qed

lemma roundHalfEven_of_int: "roundHalfEven (of_int k) = k"
  by (simp add: roundHalfEven_def)

lemma roundHalfEven_nonneg: "0 \<le> m \<Longrightarrow> 0 \<le> roundHalfEven m"
  by (auto simp: roundHalfEven_def Let_def)

lemma double_zero: "double 0 = 0"
  by (simp add: double_def)

lemma minNormal_pos: "0 < minNormal"
  unfolding minNormal_def by (rule zero_less_power_int) simp

lemma unitRoundoff_pos: "0 < unitRoundoff"
  by (simp add: unitRoundoff_def)

lemma double_nonneg: "0 \<le> x \<Longrightarrow> 0 \<le> double x"
proof (cases "x = 0")
  case True
  then show ?thesis by (simp add: double_zero)
next
  case False
  assume "0 \<le> x"
  with False have "0 < x" by simp
  then have s: "sgn x = 1" by simp
  define q :: rat where "q = 2 powi (max (exponentOf \<bar>x\<bar>) (- 1022) - 52)"
  have q: "0 < q" unfolding q_def by (rule zero_less_power_int) simp
  have d: "double x = of_int (roundHalfEven (\<bar>x\<bar> / q)) * q"
    using False s by (simp add: double_def Let_def q_def)
  have "0 \<le> \<bar>x\<bar> / q" using q by simp
  then have "0 \<le> roundHalfEven (\<bar>x\<bar> / q)" by (rule roundHalfEven_nonneg)
  then show ?thesis unfolding d using q by simp
qed

lemma double_error:
  assumes "minNormal \<le> \<bar>x\<bar>"
  shows "\<bar>double x - x\<bar> \<le> unitRoundoff * \<bar>x\<bar>"
proof -
  have pos: "0 < \<bar>x\<bar>" using assms minNormal_pos by linarith
  then have x0: "x \<noteq> 0" by simp
  let ?e0 = "exponentOf \<bar>x\<bar>"
  from exponentOf_bounds[OF pos] have lo: "2 powi ?e0 \<le> \<bar>x\<bar>" and hi: "\<bar>x\<bar> < 2 powi (?e0 + 1)"
    by simp_all
  have "- 1022 \<le> ?e0"
  proof (rule ccontr)
    assume "\<not> - 1022 \<le> ?e0"
    then have "?e0 + 1 \<le> - 1022" by simp
    then have "(2::rat) powi (?e0 + 1) \<le> 2 powi (- 1022)"
      by (rule power_int_increasing) simp
    with hi assms show False unfolding minNormal_def by linarith
  qed
  then have e: "max ?e0 (- 1022) = ?e0" by simp
  define q :: rat where "q = 2 powi (?e0 - 52)"
  have q: "0 < q" unfolding q_def by (rule zero_less_power_int) simp
  define r where "r = roundHalfEven (\<bar>x\<bar> / q)"
  have d: "double x = sgn x * (of_int r * q)"
    using x0 by (simp add: double_def Let_def e q_def r_def)
  have "double x - x = sgn x * (of_int r * q) - sgn x * \<bar>x\<bar>"
    unfolding d by (simp add: sgn_mult_abs)
  also have "\<dots> = sgn x * (of_int r * q - \<bar>x\<bar>)" by (simp add: right_diff_distrib)
  finally have "\<bar>double x - x\<bar> = \<bar>sgn x\<bar> * \<bar>of_int r * q - \<bar>x\<bar>\<bar>" by (simp only: abs_mult)
  also have "\<dots> = \<bar>of_int r * q - \<bar>x\<bar>\<bar>" using x0 by (simp add: abs_sgn_eq)
  also have "of_int r * q - \<bar>x\<bar> = (of_int r - \<bar>x\<bar> / q) * q" using q by (simp add: left_diff_distrib)
  also have "\<bar>(of_int r - \<bar>x\<bar> / q) * q\<bar> = \<bar>of_int r - \<bar>x\<bar> / q\<bar> * q"
    using q by (simp add: abs_mult)
  also have "\<dots> \<le> (1 / 2) * q"
    using roundHalfEven_error[of "\<bar>x\<bar> / q"] q unfolding r_def by (intro mult_right_mono) simp_all
  also have "(1 / 2) * q = unitRoundoff * 2 powi ?e0"
  proof -
    have "(2::rat) powi (?e0 - 52) = 2 powi ?e0 / 2 powi 52" by (rule power_int_diff) simp
    then show ?thesis by (simp add: q_def unitRoundoff_def)
  qed
  also have "\<dots> \<le> unitRoundoff * \<bar>x\<bar>"
    using lo unitRoundoff_pos by (intro mult_left_mono) simp_all
  finally show ?thesis .
qed

text \<open>Integers up to \<open>2^53\<close> are doubles.\<close>

lemma double_of_nat:
  assumes "n \<le> 2 ^ 53"
  shows "double (of_nat n) = of_nat n"
proof (cases "n = 0")
  case True
  then show ?thesis by (simp add: double_zero)
next
  case False
  let ?x = "of_nat n :: rat"
  have x1: "1 \<le> ?x" using False by simp
  have x0: "?x \<noteq> 0" using False by simp
  let ?k = "ilog2 n"
  have ek: "exponentOf \<bar>?x\<bar> = int ?k" using x1 by (simp add: exponentOf_def)
  from ilog2_bounds[of n] False have lo: "2 ^ ?k \<le> n" by simp
  then have p: "(2::nat) ^ ?k \<le> 2 ^ 53" using assms by (rule order_trans)
  have k53: "?k \<le> 53" by (rule power_le_imp_le_exp[OF _ p]) simp
  define q :: rat where "q = 2 powi (int ?k - 52)"
  have q: "0 < q" unfolding q_def by (rule zero_less_power_int) simp
  have "\<exists>j::int. ?x / q = of_int j"
  proof (cases "?k \<le> 52")
    case True
    have "q = 2 powi (- int (52 - ?k))" using True by (simp add: q_def)
    also have "\<dots> = 1 / 2 ^ (52 - ?k)" by (simp only: power_int_minus_divide power_int_of_nat)
    finally have "?x / q = of_int (int n * 2 ^ (52 - ?k))" by simp
    then show ?thesis by blast
  next
    case False
    with k53 have k: "?k = 53" by simp
    have "(2::nat) ^ 53 \<le> n" using lo unfolding k .
    with assms have n: "n = 2 ^ 53" by (rule order_antisym)
    have "q = 2 powi 1" unfolding q_def k by simp
    then have q2: "q = 2" by simp
    have "?x / q = of_nat (2 ^ 53) / 2" unfolding n q2 ..
    also have "\<dots> = of_int (2 ^ 52)" by simp
    finally show ?thesis by blast
  qed
  then obtain j :: int where j: "?x / q = of_int j" by blast
  have s: "sgn ?x = 1" using x1 by simp
  have "max (int ?k) (- 1022) = int ?k" by simp
  then have "double ?x = of_int (roundHalfEven (\<bar>?x\<bar> / q)) * q"
    using x0 s unfolding double_def Let_def ek q_def by simp
  also have "\<bar>?x\<bar> = ?x" by simp
  also have "of_int (roundHalfEven (?x / q)) * q = (?x / q) * q"
    unfolding j by (simp only: roundHalfEven_of_int)
  also have "\<dots> = ?x" using q by simp
  finally show ?thesis .
qed

section \<open>Intervals of accumulated rounding errors\<close>

lemma u_small: "unitRoundoff < 1"
  by (simp add: unitRoundoff_def)

lemma one_minus_u: "0 < 1 - unitRoundoff" "1 - unitRoundoff \<le> 1"
  using u_small unitRoundoff_pos by simp_all

lemma one_plus_u: "0 < 1 + unitRoundoff" "1 \<le> 1 + unitRoundoff"
  using unitRoundoff_pos by simp_all

lemma approxBy_zero: "approxBy k 0 0"
  by (simp add: approxBy_def)

lemma approxBy_exact: "approxBy 0 y y"
  by (simp add: approxBy_def)

lemma approxBy_nonneg: "0 \<le> y \<Longrightarrow> approxBy k y x \<Longrightarrow> 0 \<le> x"
proof -
  assume y: "0 \<le> y" and w: "approxBy k y x"
  have "0 \<le> y * (1 - unitRoundoff) ^ k" using y one_minus_u(1) by simp
  with w show ?thesis unfolding approxBy_def by linarith
qed

lemma approxBy_mono:
  assumes "0 \<le> y" and "j \<le> k" and "approxBy j y x"
  shows "approxBy k y x"
proof -
  have "(1 - unitRoundoff) ^ k \<le> (1 - unitRoundoff) ^ j"
    using assms(2) one_minus_u by (intro power_decreasing) simp_all
  then have a: "y * (1 - unitRoundoff) ^ k \<le> y * (1 - unitRoundoff) ^ j"
    using assms(1) by (rule mult_left_mono)
  have "(1 + unitRoundoff) ^ j \<le> (1 + unitRoundoff) ^ k"
    using assms(2) one_plus_u by (intro power_increasing) simp_all
  then have b: "y * (1 + unitRoundoff) ^ j \<le> y * (1 + unitRoundoff) ^ k"
    using assms(1) by (rule mult_left_mono)
  from a b assms(3) show ?thesis unfolding approxBy_def by linarith
qed

lemma approxBy_add: "approxBy k y1 x1 \<Longrightarrow> approxBy k y2 x2 \<Longrightarrow> approxBy k (y1 + y2) (x1 + x2)"
  unfolding approxBy_def by (simp add: distrib_right add_mono)

lemma approxBy_scale:
  assumes "0 \<le> c" and "approxBy k y x"
  shows "approxBy k (c * y) (c * x)"
proof -
  from assms(2) have "y * (1 - unitRoundoff) ^ k \<le> x" "x \<le> y * (1 + unitRoundoff) ^ k"
    unfolding approxBy_def by simp_all
  then have "c * (y * (1 - unitRoundoff) ^ k) \<le> c * x" "c * x \<le> c * (y * (1 + unitRoundoff) ^ k)"
    using assms(1) by (simp_all add: mult_left_mono)
  then show ?thesis unfolding approxBy_def by (simp add: mult.assoc)
qed

lemma approxBy_mult:
  assumes "0 \<le> y1" and "0 \<le> y2" and "approxBy j y1 x1" and "approxBy k y2 x2"
  shows "approxBy (j + k) (y1 * y2) (x1 * x2)"
proof -
  let ?a = "(1 - unitRoundoff)" and ?b = "(1 + unitRoundoff)"
  have x1: "0 \<le> x1" and x2: "0 \<le> x2"
    using assms approxBy_nonneg by blast+
  have l1: "0 \<le> y1 * ?a ^ j" and l2: "0 \<le> y2 * ?a ^ k"
    using assms(1,2) one_minus_u(1) by simp_all
  from assms(3,4) have b: "y1 * ?a ^ j \<le> x1" "x1 \<le> y1 * ?b ^ j" "y2 * ?a ^ k \<le> x2" "x2 \<le> y2 * ?b ^ k"
    unfolding approxBy_def by simp_all
  have "(y1 * ?a ^ j) * (y2 * ?a ^ k) \<le> x1 * x2"
    using b(1,3) l1 l2 x1 by (intro mult_mono) simp_all
  moreover have "x1 * x2 \<le> (y1 * ?b ^ j) * (y2 * ?b ^ k)"
    using b(2,4) x1 x2 by (intro mult_mono) (simp_all add: order_trans[OF x1 b(2)])
  ultimately show ?thesis unfolding approxBy_def by (simp add: power_add algebra_simps)
qed

lemma approxBy_round:
  assumes "0 \<le> y" and "approxBy k y x" and "x = 0 \<or> minNormal \<le> x"
  shows "approxBy (Suc k) y (double x)"
proof -
  let ?a = "(1 - unitRoundoff)" and ?b = "(1 + unitRoundoff)"
  have x: "0 \<le> x" using assms(1,2) by (rule approxBy_nonneg)
  from assms(2) have b: "y * ?a ^ k \<le> x" "x \<le> y * ?b ^ k" unfolding approxBy_def by simp_all
  have r: "x * ?a \<le> double x \<and> double x \<le> x * ?b"
  proof (cases "x = 0")
    case True
    then show ?thesis by (simp add: double_zero)
  next
    case False
    with assms(3) x have "minNormal \<le> \<bar>x\<bar>" by simp
    from double_error[OF this] x have "\<bar>double x - x\<bar> \<le> unitRoundoff * x" by simp
    then show ?thesis by (simp add: abs_le_iff algebra_simps)
  qed
  have "y * ?a ^ k * ?a \<le> x * ?a" using b(1) one_minus_u(1) by (intro mult_right_mono) simp_all
  then have l: "y * ?a ^ Suc k \<le> x * ?a" by (simp add: mult_ac)
  have "x * ?b \<le> y * ?b ^ k * ?b" using b(2) one_plus_u(1) by (intro mult_right_mono) simp_all
  then have h: "x * ?b \<le> y * ?b ^ Suc k" by (simp add: mult_ac)
  from r l h show ?thesis unfolding approxBy_def by linarith
qed


text \<open>Bernoulli-style bounds turn the interval into an absolute tolerance.\<close>

lemma power_one_plus_le:
  fixes u :: rat
  assumes "0 \<le> u" and "2 * of_nat k * u \<le> 1"
  shows "(1 + u) ^ k \<le> 1 + 2 * of_nat k * u"
  using assms(2)
proof (induction k)
  case 0
  then show ?case by simp
next
  case (Suc k)
  have le: "2 * of_nat k * u \<le> 1"
    using Suc.prems assms(1) by (simp add: algebra_simps)
  have "(1 + u) ^ Suc k = (1 + u) ^ k * (1 + u)" by simp
  also have "\<dots> \<le> (1 + 2 * of_nat k * u) * (1 + u)"
    using Suc.IH[OF le] assms(1) by (intro mult_right_mono) simp_all
  also have "\<dots> = 1 + 2 * of_nat k * u + u + (2 * of_nat k * u) * u" by (simp add: algebra_simps)
  also have "\<dots> \<le> 1 + 2 * of_nat k * u + u + 1 * u"
    using le assms(1) by (intro add_left_mono mult_right_mono) simp_all
  also have "\<dots> = 1 + 2 * of_nat (Suc k) * u" by (simp add: algebra_simps)
  finally show ?case .
qed

lemma power_one_minus_ge:
  fixes u :: rat
  assumes "0 \<le> u" and "u \<le> 1"
  shows "1 - of_nat k * u \<le> (1 - u) ^ k"
proof (induction k)
  case 0
  then show ?case by simp
next
  case (Suc k)
  show ?case
  proof (cases "0 \<le> 1 - of_nat k * u")
    case True
    have "1 - of_nat (Suc k) * u \<le> (1 - of_nat k * u) * (1 - u)"
    proof -
      have "(1 - of_nat k * u) * (1 - u) = 1 - of_nat (Suc k) * u + of_nat k * u * u"
        by (simp add: algebra_simps)
      moreover have "0 \<le> of_nat k * u * u" using assms(1) by simp
      ultimately show ?thesis by linarith
    qed
    also have "\<dots> \<le> (1 - u) ^ k * (1 - u)"
      using Suc.IH assms(2) by (intro mult_right_mono) simp_all
    finally show ?thesis by (simp add: mult.commute)
  next
    case False
    then have "1 - of_nat (Suc k) * u \<le> 0" using assms(1) by (simp add: algebra_simps)
    moreover have "0 \<le> (1 - u) ^ Suc k" using assms(2) by simp
    ultimately show ?thesis by linarith
  qed
qed

lemma approxBy_tolerance:
  assumes "0 \<le> y" and "approxBy k y x" and "2 * of_nat k * unitRoundoff \<le> 1"
  shows "\<bar>x - y\<bar> \<le> y * (2 * of_nat k * unitRoundoff)"
proof -
  let ?t = "2 * of_nat k * unitRoundoff"
  have u: "0 \<le> unitRoundoff" "unitRoundoff \<le> 1" using unitRoundoff_pos u_small by simp_all
  from assms(2) have b: "y * (1 - unitRoundoff) ^ k \<le> x" "x \<le> y * (1 + unitRoundoff) ^ k"
    unfolding approxBy_def by simp_all
  have "y * (1 + unitRoundoff) ^ k \<le> y * (1 + ?t)"
    using power_one_plus_le[OF u(1) assms(3)] assms(1) by (rule mult_left_mono)
  with b(2) have hi: "x - y \<le> y * ?t" by (simp add: algebra_simps)
  have "1 - ?t \<le> 1 - of_nat k * unitRoundoff" using u(1) by simp
  also have "\<dots> \<le> (1 - unitRoundoff) ^ k" by (rule power_one_minus_ge[OF u])
  finally have "y * (1 - ?t) \<le> y * (1 - unitRoundoff) ^ k" using assms(1) by (rule mult_left_mono)
  with b(1) have lo: "y - x \<le> y * ?t" by (simp add: algebra_simps)
  from hi lo show ?thesis by (simp add: abs_le_iff)
qed

lemma approxBy_half:
  assumes "0 \<le> y" and "approxBy k y x" and "k \<le> 4"
  shows "y / 2 \<le> x"
proof -
  have w: "approxBy 4 y x" using assms by (intro approxBy_mono[of y k 4]) simp_all
  have u: "0 \<le> unitRoundoff" "unitRoundoff \<le> 1" using unitRoundoff_pos u_small by simp_all
  have "(1::rat) / 2 \<le> 1 - of_nat 4 * unitRoundoff" by (simp add: unitRoundoff_def)
  also have "\<dots> \<le> (1 - unitRoundoff) ^ 4" by (rule power_one_minus_ge[OF u])
  finally have "y * (1 / 2) \<le> y * (1 - unitRoundoff) ^ 4" using assms(1) by (rule mult_left_mono)
  with w show ?thesis unfolding approxBy_def by simp
qed

text \<open>Lower bounds by powers of two, kept symbolic in the exponent.\<close>

lemma minNormal_le:
  assumes "2 powi e \<le> y" and "- 1022 \<le> e"
  shows "minNormal \<le> y"
proof -
  have "(2::rat) powi (- 1022) \<le> 2 powi e" using assms(2) by (intro power_int_increasing) simp_all
  with assms(1) show ?thesis unfolding minNormal_def by (rule order_trans[rotated])
qed

lemma pow2_pos: "(0::rat) < 2 powi e"
  by (rule zero_less_power_int) simp

lemma pow2_half:
  assumes "2 powi e \<le> (y::rat)"
  shows "2 powi (e - 1) \<le> y / 2"
proof -
  have "(2::rat) powi (e - 1) = 2 powi e / 2 powi 1" by (rule power_int_diff) simp
  then have "(2::rat) powi (e - 1) = 2 powi e / 2" by simp
  with assms show ?thesis by (simp add: divide_right_mono)
qed

lemma pow2_le_nonneg: "2 powi e \<le> (y::rat) \<Longrightarrow> 0 \<le> y"
  using pow2_pos[of e] by linarith

lemma pow2_mult:
  assumes "2 powi a \<le> (x::rat)" and "2 powi b \<le> (y::rat)"
  shows "2 powi (a + b) \<le> x * y"
proof -
  have "(2::rat) powi (a + b) = 2 powi a * 2 powi b" by (rule power_int_add) simp
  also have "\<dots> \<le> x * y"
    using assms pow2_pos[of b] pow2_le_nonneg[OF assms(1)] by (intro mult_mono) simp_all
  finally show ?thesis .
qed

lemma inverse_size_bound:
  assumes "0 < n" and "n \<le> 2 ^ 52"
  shows "2 powi (- 52) \<le> 1 / (of_nat n :: rat)"
proof -
  have "(of_nat n :: rat) \<le> of_nat (2 ^ 52)" using assms(2) by (simp only: of_nat_le_iff)
  then have "(of_nat n :: rat) \<le> 2 ^ 52" by simp
  then have "1 / (2 ^ 52 :: rat) \<le> 1 / of_nat n" using assms(1) by (intro divide_left_mono) simp_all
  moreover have "(2::rat) powi (- 52) = 1 / 2 ^ 52" by (simp only: power_int_minus_divide power_int_numeral)
  ultimately show ?thesis by (simp only:)
qed

lemma round_exact:
  assumes "0 \<le> y" and "y = 0 \<or> minNormal \<le> y"
  shows "approxBy 1 y (double y)"
  using approxBy_round[OF assms(1) approxBy_exact assms(2)] by simp

text \<open>One accumulation \<open>x += c\<close>, and a total that is left alone.\<close>

lemma accumulate:
  assumes "0 \<le> y" and "approxBy m y x" and "0 \<le> cs" and "approxBy 4 cs c" and "4 \<le> m"
    and "minNormal \<le> c"
  shows "approxBy (Suc m) (y + cs) (fadd double x c)"
proof -
  have "approxBy m cs c" using assms(3,5,4) by (rule approxBy_mono)
  with assms(2) have a: "approxBy m (y + cs) (x + c)" by (rule approxBy_add)
  have "0 \<le> x" using assms(1,2) by (rule approxBy_nonneg)
  then have "minNormal \<le> x + c" using assms(6) by simp
  then show ?thesis unfolding fadd_def using assms(1,3) a by (intro approxBy_round) simp_all
qed

lemma keep: "0 \<le> y \<Longrightarrow> approxBy m y x \<Longrightarrow> approxBy (Suc m) y x"
  by (rule approxBy_mono[of y m]) simp_all

lemma global_step:
  assumes "approxStats m s g" and "0 \<le> cs" and "approxBy 4 cs c" and "4 \<le> m"
    and "minNormal \<le> c"
  shows "approxStats (Suc m) (s(cat := s cat + cs))
           ((addTo double cat c g)\<lparr>totalWeight := fadd double (totalWeight (addTo double cat c g)) c\<rparr>)"
proof -
  from assms(1) have nn: "\<And>c. 0 \<le> s c" and gt: "0 \<le> ghostTotal s"
    by (simp_all add: approxStats_def ghostTotal_def)
  have t: "ghostTotal (s(k := s k + cs)) = ghostTotal s + cs" for k
    by (cases k) (simp_all add: ghostTotal_def)
  have tw: "approxBy (Suc m) (ghostTotal s + cs) (fadd double (totalWeight g) c)"
    using assms by (intro accumulate gt) (simp_all add: approxStats_def)
  have acc: "\<And>y x. 0 \<le> y \<Longrightarrow> approxBy m y x \<Longrightarrow> approxBy (Suc m) (y + cs) (fadd double x c)"
    using assms(2-5) by (rule accumulate[rotated 2])
  show ?thesis
    using assms(1,2) nn tw
    by (cases cat) (simp_all add: approxStats_def addTo_def t acc keep)
qed

section \<open>The global totals as computed in doubles\<close>

lemma studentStep_globalStats:
  "globalStats (studentStep rnd subs p qId w itemId mp st acc) =
     (addTo rnd (pairCategory rnd subs p itemId mp st)
        (fmul rnd (fdiv rnd 1 (of_nat (length subs))) w) (globalStats acc))
       \<lparr>totalWeight :=
          fadd rnd
            (totalWeight (addTo rnd (pairCategory rnd subs p itemId mp st)
               (fmul rnd (fdiv rnd 1 (of_nat (length subs))) w) (globalStats acc)))
            (fmul rnd (fdiv rnd 1 (of_nat (length subs))) w)\<rparr>"
  by (simp add: studentStep_def Let_def)

text \<open>The contribution of one pair, from a weight per item that carries two roundings.\<close>

lemma contribution_approx:
  assumes "approxBy 2 ws w" and "2 powi e \<le> ws" and "- 900 \<le> e" and "0 < M" and "M \<le> 2 ^ 52"
  defines "c \<equiv> fmul double (fdiv double 1 (of_nat M)) w"
  shows "approxBy 4 (ws / of_nat M) c" and "minNormal \<le> c" and "0 \<le> ws / of_nat M"
    and "2 powi (- 52 + e) \<le> ws / of_nat M"
proof -
  let ?i = "1 / (of_nat M :: rat)"
  have ws0: "0 \<le> ws" using assms(2) by (rule pow2_le_nonneg)
  have i52: "2 powi (- 52) \<le> ?i" using assms(4,5) by (rule inverse_size_bound)
  have i0: "0 \<le> ?i" by simp
  have "minNormal \<le> ?i" using i52 by (rule minNormal_le) simp
  then have d1: "approxBy 1 ?i (double ?i)" using i0 by (intro round_exact) simp_all
  have "approxBy (1 + 2) (?i * ws) (double ?i * w)"
    using i0 ws0 d1 assms(1) by (rule approxBy_mult)
  then have prod: "approxBy 3 (?i * ws) (double ?i * w)" by (simp add: eval_nat_numeral)
  have e: "?i * ws = ws / of_nat M" by simp
  have lowp: "2 powi (- 52 + e) \<le> ?i * ws" using i52 assms(2) by (rule pow2_mult)
  then show "2 powi (- 52 + e) \<le> ws / of_nat M" unfolding e .
  have y0: "0 \<le> ?i * ws" using ws0 by simp
  have half: "2 powi (- 52 + e - 1) \<le> (?i * ws) / 2" using lowp by (rule pow2_half)
  have "(?i * ws) / 2 \<le> double ?i * w" using y0 prod by (rule approxBy_half) simp
  with half have "2 powi (- 52 + e - 1) \<le> double ?i * w" by (rule order_trans)
  then have "minNormal \<le> double ?i * w" by (rule minNormal_le) (use assms(3) in simp)
  then have "approxBy (Suc 3) (?i * ws) (double (double ?i * w))"
    using y0 prod by (intro approxBy_round) simp_all
  then have c4: "approxBy 4 (?i * ws) (double (double ?i * w))" by (simp add: eval_nat_numeral)
  then show "approxBy 4 (ws / of_nat M) c" unfolding c_def fmul_def fdiv_def e .
  have "(?i * ws) / 2 \<le> double (double ?i * w)" using y0 c4 by (rule approxBy_half) simp
  with half have "2 powi (- 52 + e - 1) \<le> double (double ?i * w)" by (rule order_trans)
  then show "minNormal \<le> c" unfolding c_def fmul_def fdiv_def
    by (rule minNormal_le) (use assms(3) in simp)
  show "0 \<le> ws / of_nat M" using ws0 by simp
qed

lemma studentStep_approx:
  assumes "approxBy 4 cs (fmul double (fdiv double 1 (of_nat (length subs))) w)"
    and "minNormal \<le> fmul double (fdiv double 1 (of_nat (length subs))) w" and "0 \<le> cs"
    and "approxTotal m S acc" and "4 \<le> m"
  shows "approxTotal (Suc m) (S + cs) (studentStep double subs p qId w itemId mp st acc)"
proof -
  from assms(4) obtain s where s: "approxStats m s (globalStats acc)" "ghostTotal s = S"
    unfolding approxTotal_def by blast
  let ?cat = "pairCategory double subs p itemId mp st"
  have t: "ghostTotal (s(?cat := s ?cat + cs)) = S + cs"
    using s(2) by (cases ?cat) (simp_all add: ghostTotal_def)
  have "approxStats (Suc m) (s(?cat := s ?cat + cs))
          (globalStats (studentStep double subs p qId w itemId mp st acc))"
    unfolding studentStep_globalStats
    using s(1) assms(3,1,5,2) by (rule global_step)
  with t show ?thesis unfolding approxTotal_def by blast
qed

lemma students_approx:
  assumes "approxBy 4 cs (fmul double (fdiv double 1 (of_nat (length subs))) w)"
    and "minNormal \<le> fmul double (fdiv double 1 (of_nat (length subs))) w" and "0 \<le> cs"
  shows "approxTotal m S acc \<Longrightarrow> 4 \<le> m \<Longrightarrow>
         approxTotal (m + length xs) (S + of_nat (length xs) * cs)
           (fold (studentStep double subs p qId w itemId mp) xs acc)"
proof (induction xs arbitrary: m S acc)
  case Nil
  then show ?case by simp
next
  case (Cons x xs)
  have "approxTotal (Suc m) (S + cs) (studentStep double subs p qId w itemId mp x acc)"
    using assms Cons.prems by (rule studentStep_approx)
  from Cons.IH[OF this] Cons.prems(2) show ?case by (simp add: algebra_simps)
qed

lemma itemStep_approx:
  assumes "approxBy 4 cs (fmul double (fdiv double 1 (of_nat (length subs))) w)"
    and "minNormal \<le> fmul double (fdiv double 1 (of_nat (length subs))) w" and "0 \<le> cs"
    and "approxTotal m S acc" and "4 \<le> m"
  shows "approxTotal (m + length subs) (S + of_nat (length subs) * cs)
           (itemStep double subs p qId w item acc)"
  unfolding itemStep_def Let_def using assms by (rule students_approx)

lemma items_approx:
  assumes "approxBy 4 cs (fmul double (fdiv double 1 (of_nat (length subs))) w)"
    and "minNormal \<le> fmul double (fdiv double 1 (of_nat (length subs))) w" and "0 \<le> cs"
  shows "approxTotal m S acc \<Longrightarrow> 4 \<le> m \<Longrightarrow>
         approxTotal (m + length items * length subs)
           (S + of_nat (length items) * (of_nat (length subs) * cs))
           (fold (itemStep double subs p qId w) items acc)"
proof (induction items arbitrary: m S acc)
  case Nil
  then show ?case by simp
next
  case (Cons x xs)
  have "approxTotal (m + length subs) (S + of_nat (length subs) * cs)
          (itemStep double subs p qId w x acc)"
    using assms Cons.prems by (rule itemStep_approx)
  from Cons.IH[OF this] Cons.prems(2) show ?case by (simp add: algebra_simps)
qed

lemma approxTotal_cong:
  "globalStats acc' = globalStats acc \<Longrightarrow> approxTotal m S acc \<Longrightarrow> approxTotal m S acc'"
  by (simp add: approxTotal_def)

lemma subItems_nonempty: "subItems q \<noteq> []"
  by (simp add: subItems_def split: option.splits list.splits)

lemma questionStep_globalStats:
  "globalStats (questionStep rnd subs p wq q acc) =
     globalStats (fold (itemStep rnd subs p (question_id q)
         (fdiv rnd wq (of_nat (length (subItems q))))) (subItems q)
       (acc\<lparr>questionStats := (questionStats acc)(question_id q \<mapsto> emptyStat)\<rparr>))"
  by (simp add: questionStep_def Let_def)

lemma questionStep_approx:
  assumes "approxBy 1 wqs wq" and "2 powi e \<le> wqs" and "- 800 \<le> e"
    and "length (subItems q) \<le> 2 ^ 52" and "subs \<noteq> []" and "length subs \<le> 2 ^ 52"
    and "approxTotal m S acc" and "4 \<le> m"
  shows "approxTotal (m + length (subItems q) * length subs) (S + wqs)
           (questionStep double subs p wq q acc)"
proof -
  let ?K = "length (subItems q)" and ?M = "length subs"
  let ?ik = "1 / (of_nat ?K :: rat)"
  let ?w = "fdiv double wq (of_nat ?K)"
  have K: "0 < ?K" using subItems_nonempty[of q] by simp
  have M: "0 < ?M" using assms(5) by simp
  have wqs0: "0 \<le> wqs" using assms(2) by (rule pow2_le_nonneg)
  have ik: "2 powi (- 52) \<le> ?ik" using K assms(4) by (rule inverse_size_bound)
  have ik0: "0 \<le> ?ik" by simp
  have sc: "approxBy 1 (?ik * wqs) (?ik * wq)" using ik0 assms(1) by (rule approxBy_scale)
  have y0: "0 \<le> ?ik * wqs" using wqs0 by simp
  have low: "2 powi (- 52 + e) \<le> ?ik * wqs" using ik assms(2) by (rule pow2_mult)
  then have half: "2 powi (- 52 + e - 1) \<le> (?ik * wqs) / 2" by (rule pow2_half)
  have "(?ik * wqs) / 2 \<le> ?ik * wq" using y0 sc by (rule approxBy_half) simp
  with half have "2 powi (- 52 + e - 1) \<le> ?ik * wq" by (rule order_trans)
  then have "minNormal \<le> ?ik * wq" by (rule minNormal_le) (use assms(3) in simp)
  then have "approxBy (Suc 1) (?ik * wqs) (double (?ik * wq))"
    using y0 sc by (intro approxBy_round) simp_all
  then have w2: "approxBy 2 (?ik * wqs) ?w" by (simp add: fdiv_def eval_nat_numeral)
  have e': "- 900 \<le> - 52 + e" using assms(3) by simp
  note c = contribution_approx[OF w2 low e' M assms(6)]
  let ?cs = "?ik * wqs / of_nat ?M"
  let ?acc1 = "acc\<lparr>questionStats := (questionStats acc)(question_id q \<mapsto> emptyStat)\<rparr>"
  have "approxTotal m S ?acc1" using assms(7) by (intro approxTotal_cong[of ?acc1 acc]) simp_all
  then have "approxTotal (m + ?K * ?M) (S + of_nat ?K * (of_nat ?M * ?cs))
          (fold (itemStep double subs p (question_id q) ?w) (subItems q) ?acc1)"
    using assms(8) by (intro items_approx c) simp_all
  moreover have "of_nat ?K * (of_nat ?M * ?cs) = wqs" using K M by simp
  ultimately have "approxTotal (m + ?K * ?M) (S + wqs)
          (fold (itemStep double subs p (question_id q) ?w) (subItems q) ?acc1)" by simp
  then show ?thesis
    by (rule approxTotal_cong[rotated]) (simp add: questionStep_globalStats)
qed

lemma questions_approx:
  assumes "approxBy 1 wqs wq" and "2 powi e \<le> wqs" and "- 800 \<le> e"
    and "subs \<noteq> []" and "length subs \<le> 2 ^ 52"
  shows "\<forall>q\<in>set qs. length (subItems q) \<le> 2 ^ 52 \<Longrightarrow> approxTotal m S acc \<Longrightarrow> 4 \<le> m \<Longrightarrow>
         approxTotal (m + pairCount qs subs) (S + of_nat (length qs) * wqs)
           (fold (questionStep double subs p wq) qs acc)"
proof (induction qs arbitrary: m S acc)
  case Nil
  then show ?case by (simp add: pairCount_def)
next
  case (Cons q qs)
  have "approxTotal (m + length (subItems q) * length subs) (S + wqs)
          (questionStep double subs p wq q acc)"
    using assms(1-3) _ assms(4,5) Cons.prems(2,3) by (rule questionStep_approx) (use Cons.prems(1) in simp)
  from Cons.IH[OF _ this] Cons.prems(1,3) show ?case
    by (simp add: pairCount_def algebra_simps)
qed

lemma pairCount_ge_pair:
  assumes "q \<in> set qs"
  shows "length (subItems q) * length subs \<le> pairCount qs subs"
  using assms by (induction qs) (auto simp: pairCount_def)

lemma pairCount_ge_item:
  assumes "q \<in> set qs" and "subs \<noteq> []"
  shows "length (subItems q) \<le> pairCount qs subs"
proof -
  have "length (subItems q) \<le> length (subItems q) * length subs"
    using assms(2) by (cases subs) simp_all
  with pairCount_ge_pair[OF assms(1), of subs] show ?thesis by (rule order_trans[rotated])
qed

lemma pairCount_ge_students:
  assumes "qs \<noteq> []"
  shows "length subs \<le> pairCount qs subs"
proof -
  obtain q where q: "q \<in> set qs" using assms by (cases qs) auto
  have "length subs \<le> length (subItems q) * length subs"
    using subItems_nonempty[of q] by (cases "subItems q") simp_all
  with pairCount_ge_pair[OF q, of subs] show ?thesis by (rule order_trans[rotated])
qed

lemma pairCount_Cons:
  "pairCount (q # qs) subs = length (subItems q) * length subs + pairCount qs subs"
  by (simp add: pairCount_def)

lemma pairCount_ge_questions:
  assumes "subs \<noteq> []"
  shows "length qs \<le> pairCount qs subs"
proof (induction qs)
  case Nil
  then show ?case by simp
next
  case (Cons q qs)
  define k where "k = length (subItems q) * length subs"
  have "0 < k" unfolding k_def using subItems_nonempty[of q] assms by simp
  moreover have "pairCount (q # qs) subs = k + pairCount qs subs"
    unfolding k_def by (rule pairCount_Cons)
  ultimately show ?case using Cons by simp
qed

lemma initial_approx: "approxTotal 4 0 initialStats"
proof -
  have "approxStats 4 (\<lambda>c. 0) (globalStats initialStats)"
    by (simp add: approxStats_def initialStats_def ghostTotal_def approxBy_zero)
  then show ?thesis unfolding approxTotal_def by (intro exI[of _ "\<lambda>c. 0"]) (simp add: ghostTotal_def)
qed

text \<open>The totals computed in doubles for a repository with questions and students.\<close>

lemma double_totals_approx:
  assumes "qs \<noteq> []" and "subs \<noteq> []" and "pairCount qs subs + 4 \<le> 2 ^ 52"
  shows "approxTotal (4 + pairCount qs subs) 100
           (fold (questionStep double subs p (fdiv double 100 (of_nat (length qs)))) qs initialStats)"
proof -
  let ?N = "length qs"
  have n: "pairCount qs subs \<le> 2 ^ 52" using assms(3) by simp
  have N: "0 < ?N" using assms(1) by simp
  have N52: "?N \<le> 2 ^ 52" using pairCount_ge_questions[OF assms(2), of qs] n by (rule order_trans)
  have M52: "length subs \<le> 2 ^ 52" using pairCount_ge_students[OF assms(1), of subs] n by (rule order_trans)
  have K52: "\<forall>q\<in>set qs. length (subItems q) \<le> 2 ^ 52"
    using pairCount_ge_item[OF _ assms(2)] n by (meson order_trans)
  let ?wqs = "100 / (of_nat ?N :: rat)"
  have i: "2 powi (- 52) \<le> 1 / (of_nat ?N :: rat)" using N N52 by (rule inverse_size_bound)
  have "1 / (of_nat ?N :: rat) \<le> ?wqs" by (simp add: divide_right_mono)
  with i have low: "2 powi (- 52) \<le> ?wqs" by (rule order_trans)
  then have "minNormal \<le> ?wqs" by (rule minNormal_le) simp
  then have wq: "approxBy 1 ?wqs (fdiv double 100 (of_nat ?N))"
    unfolding fdiv_def by (intro round_exact) simp_all
  have "approxTotal (4 + pairCount qs subs) (0 + of_nat ?N * ?wqs)
          (fold (questionStep double subs p (fdiv double 100 (of_nat ?N))) qs initialStats)"
    using wq low _ assms(2) M52 K52 initial_approx by (rule questions_approx) simp_all
  moreover have "of_nat ?N * ?wqs = 100" using N by simp
  ultimately show ?thesis by simp
qed

lemma tolerance_side: "n + 4 \<le> 2 ^ 52 \<Longrightarrow> 2 * of_nat (4 + n) * unitRoundoff \<le> 1"
proof -
  assume "n + 4 \<le> 2 ^ 52"
  then have "(of_nat (4 + n) :: rat) \<le> of_nat (2 ^ 52)" by (simp only: of_nat_le_iff add.commute)
  then have "(of_nat (4 + n) :: rat) \<le> 2 ^ 52" by simp
  then have "2 * of_nat (4 + n) * unitRoundoff \<le> 2 * 2 ^ 52 * unitRoundoff"
    using unitRoundoff_pos by (intro mult_right_mono mult_left_mono) simp_all
  also have "\<dots> = 1" by (simp add: unitRoundoff_def)
  finally show ?thesis .
qed

lemma double_totalWeight_tolerance:
  fixes p :: thresholds
  assumes "qs \<noteq> []" and "subs \<noteq> []" and "pairCount qs subs + 4 \<le> 2 ^ 52"
  defines "res \<equiv> fold (questionStep double subs p (fdiv double 100 (of_nat (length qs)))) qs initialStats"
  shows "\<bar>totalWeight (globalStats res) - 100\<bar>
           \<le> 100 * (2 * of_nat (4 + pairCount qs subs) * unitRoundoff)"
    and "\<bar>totalWeight (globalStats res) - sum5 (globalStats res)\<bar>
           \<le> 200 * (2 * of_nat (4 + pairCount qs subs) * unitRoundoff)"
proof -
  let ?m = "4 + pairCount qs subs"
  from double_totals_approx[OF assms(1-3), of p] obtain s where
    s: "approxStats ?m s (globalStats res)" and t: "ghostTotal s = 100"
    unfolding approxTotal_def res_def by blast
  have side: "2 * of_nat ?m * unitRoundoff \<le> 1" using assms(3) by (rule tolerance_side)
  have tw: "approxBy ?m 100 (totalWeight (globalStats res))"
    using s t by (simp add: approxStats_def)
  then have a: "\<bar>totalWeight (globalStats res) - 100\<bar> \<le> 100 * (2 * of_nat ?m * unitRoundoff)"
    using side by (intro approxBy_tolerance) simp_all
  then show "\<bar>totalWeight (globalStats res) - 100\<bar> \<le> 100 * (2 * of_nat ?m * unitRoundoff)" .
  have "approxBy ?m (ghostTotal s) (sum5 (globalStats res))"
    unfolding ghostTotal_def sum5_def using s by (intro approxBy_add) (simp_all add: approxStats_def)
  then have "approxBy ?m 100 (sum5 (globalStats res))" using t by simp
  then have b: "\<bar>sum5 (globalStats res) - 100\<bar> \<le> 100 * (2 * of_nat ?m * unitRoundoff)"
    using side by (intro approxBy_tolerance) simp_all
  from a b show "\<bar>totalWeight (globalStats res) - sum5 (globalStats res)\<bar>
           \<le> 200 * (2 * of_nat ?m * unitRoundoff)" by linarith
qed

section \<open>The per-question counters as computed in doubles\<close>

lemma fold_preserves:
  assumes "\<And>x s. P s \<Longrightarrow> P (f x s)" and "P s"
  shows "P (fold f xs s)"
  using assms(2) by (induction xs arbitrary: s) (simp_all add: assms(1))

lemma increment_exact: "a < 2 ^ 53 \<Longrightarrow> fadd double (of_nat a) 1 = of_nat (Suc a)"
proof -
  assume "a < 2 ^ 53"
  then have "Suc a \<le> 2 ^ 53" by simp
  then have "double (of_nat (Suc a)) = of_nat (Suc a)" by (rule double_of_nat)
  then show ?thesis by (simp add: fadd_def add.commute)
qed

lemma rawCounts_step:
  assumes "rawCounts j e" and "j < 2 ^ 53"
  shows "rawCounts (Suc j) ((addTo double cat 1 e)\<lparr>totalCount := fadd double (totalCount e) 1\<rparr>)"
proof -
  from assms(1) obtain a b c d g :: nat where
    f: "aiHigh e = of_nat a" "aiLow e = of_nat b" "lowScore e = of_nat c"
       "gradedOnce e = of_nat d" "graded2Plus e = of_nat g" "totalCount e = of_nat j"
    and t: "a + b + c + d + g = j"
    unfolding rawCounts_def by blast
  have lt: "a < 2 ^ 53" "b < 2 ^ 53" "c < 2 ^ 53" "d < 2 ^ 53" "g < 2 ^ 53"
    using t assms(2) by simp_all
  note inc = increment_exact[OF lt(1)] increment_exact[OF lt(2)] increment_exact[OF lt(3)]
    increment_exact[OF lt(4)] increment_exact[OF lt(5)] increment_exact[OF assms(2)]
  show ?thesis
  proof (cases cat)
    case AiHigh
    show ?thesis unfolding rawCounts_def
      by (rule exI[of _ "Suc a"], rule exI[of _ b], rule exI[of _ c], rule exI[of _ d],
          rule exI[of _ g]) (use t in \<open>simp add: AiHigh addTo_def f inc\<close>)
  next
    case AiLow
    show ?thesis unfolding rawCounts_def
      by (rule exI[of _ a], rule exI[of _ "Suc b"], rule exI[of _ c], rule exI[of _ d],
          rule exI[of _ g]) (use t in \<open>simp add: AiLow addTo_def f inc\<close>)
  next
    case LowScore
    show ?thesis unfolding rawCounts_def
      by (rule exI[of _ a], rule exI[of _ b], rule exI[of _ "Suc c"], rule exI[of _ d],
          rule exI[of _ g]) (use t in \<open>simp add: LowScore addTo_def f inc\<close>)
  next
    case GradedOnce
    show ?thesis unfolding rawCounts_def
      by (rule exI[of _ a], rule exI[of _ b], rule exI[of _ c], rule exI[of _ "Suc d"],
          rule exI[of _ g]) (use t in \<open>simp add: GradedOnce addTo_def f inc\<close>)
  next
    case Graded2Plus
    show ?thesis unfolding rawCounts_def
      by (rule exI[of _ a], rule exI[of _ b], rule exI[of _ c], rule exI[of _ d],
          rule exI[of _ "Suc g"]) (use t in \<open>simp add: Graded2Plus addTo_def f inc\<close>)
  qed
qed

lemma studentStep_questionStats:
  "questionStats (studentStep rnd subs p qId w itemId mp st acc) =
     updEntry (questionStats acc) qId
       (\<lambda>e. (addTo rnd (pairCategory rnd subs p itemId mp st) 1 e)
               \<lparr>totalCount := fadd rnd (totalCount e) 1\<rparr>)"
  by (simp add: studentStep_def Let_def)

lemma studentStep_counting:
  assumes "countingEntry k qs0 j acc" and "j < 2 ^ 53"
  shows "countingEntry k qs0 (Suc j) (studentStep double subs p k w itemId mp st acc)"
proof -
  from assms(1) obtain e where e: "questionStats acc k = Some e" "rawCounts j e"
    and o: "\<And>k'. k' \<noteq> k \<Longrightarrow> questionStats acc k' = qs0 k'"
    unfolding countingEntry_def by blast
  let ?e' = "(addTo double (pairCategory double subs p itemId mp st) 1 e)
               \<lparr>totalCount := fadd double (totalCount e) 1\<rparr>"
  have q: "questionStats (studentStep double subs p k w itemId mp st acc) =
             (questionStats acc)(k \<mapsto> ?e')"
    unfolding studentStep_questionStats using e(1) by (simp add: updEntry_def)
  have "rawCounts (Suc j) ?e'" using e(2) assms(2) by (rule rawCounts_step)
  then show ?thesis unfolding countingEntry_def q using o by simp
qed

lemma students_counting:
  "countingEntry k qs0 j acc \<Longrightarrow> j + length xs \<le> 2 ^ 53 \<Longrightarrow>
   countingEntry k qs0 (j + length xs) (fold (studentStep double subs p k w itemId mp) xs acc)"
proof (induction xs arbitrary: j acc)
  case Nil
  then show ?case by simp
next
  case (Cons x xs)
  have "j < 2 ^ 53" using Cons.prems(2) by simp
  with Cons.prems(1) have "countingEntry k qs0 (Suc j) (studentStep double subs p k w itemId mp x acc)"
    by (rule studentStep_counting)
  from Cons.IH[OF this] Cons.prems(2) show ?case by simp
qed

lemma items_counting:
  "countingEntry k qs0 j acc \<Longrightarrow> j + length items * length subs \<le> 2 ^ 53 \<Longrightarrow>
   countingEntry k qs0 (j + length items * length subs)
     (fold (itemStep double subs p k w) items acc)"
proof (induction items arbitrary: j acc)
  case Nil
  then show ?case by simp
next
  case (Cons x xs)
  have "j + length subs \<le> 2 ^ 53" using Cons.prems(2) by simp
  with Cons.prems(1) have "countingEntry k qs0 (j + length subs) (itemStep double subs p k w x acc)"
    unfolding itemStep_def Let_def by (rule students_counting)
  from Cons.IH[OF this] Cons.prems(2) show ?case by (simp add: algebra_simps)
qed

lemma inverse_count_bound:
  assumes "0 < n" and "n \<le> 2 ^ 53"
  shows "2 powi (- 53) \<le> 1 / (of_nat n :: rat)"
proof -
  have "(of_nat n :: rat) \<le> of_nat (2 ^ 53)" using assms(2) by (simp only: of_nat_le_iff)
  then have "(of_nat n :: rat) \<le> 2 ^ 53" by simp
  then have "1 / (2 ^ 53 :: rat) \<le> 1 / of_nat n" using assms(1) by (intro divide_left_mono) simp_all
  moreover have "(2::rat) powi (- 53) = 1 / 2 ^ 53" by (simp only: power_int_minus_divide power_int_numeral)
  ultimately show ?thesis by (simp only:)
qed

text \<open>One percentage \<open>(count / total) * 100\<close> computed in doubles.\<close>

lemma percentage_approx:
  assumes "0 < j" and "j \<le> 2 ^ 53"
  shows "approxBy 2 (of_nat a / of_nat j * 100) (fmul double (fdiv double (of_nat a) (of_nat j)) 100)"
proof (cases "a = 0")
  case True
  then show ?thesis by (simp add: fmul_def fdiv_def double_zero approxBy_zero)
next
  case False
  let ?y = "of_nat a / (of_nat j :: rat)"
  have y0: "0 \<le> ?y" by simp
  have "1 / (of_nat j :: rat) \<le> ?y" using False by (intro divide_right_mono) simp_all
  with inverse_count_bound[OF assms] have low: "2 powi (- 53) \<le> ?y" by (rule order_trans)
  then have "minNormal \<le> ?y" by (rule minNormal_le) simp
  then have d: "approxBy 1 ?y (double ?y)" using y0 by (intro round_exact) simp_all
  have "approxBy 1 (100 * ?y) (100 * double ?y)" using _ d by (rule approxBy_scale) simp
  then have s: "approxBy 1 (?y * 100) (double ?y * 100)" by (simp only: mult.commute)
  have y100: "0 \<le> ?y * 100" by simp
  have "?y * 1 \<le> ?y * 100" using y0 by (intro mult_left_mono) simp_all
  then have "?y \<le> ?y * 100" by (simp only: mult_1_right)
  with low have "2 powi (- 53) \<le> ?y * 100" by (rule order_trans)
  then have half: "2 powi (- 53 - 1) \<le> (?y * 100) / 2" by (rule pow2_half)
  have "(?y * 100) / 2 \<le> double ?y * 100" using y100 s by (rule approxBy_half) simp
  with half have "2 powi (- 53 - 1) \<le> double ?y * 100" by (rule order_trans)
  then have "minNormal \<le> double ?y * 100" by (rule minNormal_le) simp
  then have "approxBy (Suc 1) (?y * 100) (double (double ?y * 100))"
    using y100 s by (intro approxBy_round) simp_all
  then show ?thesis by (simp add: fmul_def fdiv_def eval_nat_numeral)
qed

lemma totalCount_toPercentages: "totalCount (toPercentages rnd e) = totalCount e"
  by (simp add: toPercentages_def Let_def)

lemma percentages_near:
  assumes "rawCounts j e" and "0 < j" and "j \<le> 2 ^ 53"
  shows "\<bar>sum5 (toPercentages double e) - 100\<bar> \<le> 400 * unitRoundoff"
proof -
  from assms(1) obtain a b c d g :: nat where
    f: "aiHigh e = of_nat a" "aiLow e = of_nat b" "lowScore e = of_nat c"
       "gradedOnce e = of_nat d" "graded2Plus e = of_nat g" "totalCount e = of_nat j"
    and t: "a + b + c + d + g = j"
    unfolding rawCounts_def by blast
  let ?p = "\<lambda>n::nat. fmul double (fdiv double (of_nat n) (of_nat j)) 100"
  let ?y = "\<lambda>n::nat. of_nat n / (of_nat j :: rat) * 100"
  have s: "sum5 (toPercentages double e) = ?p a + ?p b + ?p c + ?p d + ?p g"
    using assms(2) by (simp add: toPercentages_def Let_def sum5_def f)
  have "approxBy 2 (?y a + ?y b + ?y c + ?y d + ?y g) (?p a + ?p b + ?p c + ?p d + ?p g)"
    by (intro approxBy_add percentage_approx assms(2,3))
  moreover have "?y a + ?y b + ?y c + ?y d + ?y g = of_nat (a + b + c + d + g) / of_nat j * 100"
    by (simp add: add_divide_distrib distrib_right)
  moreover have "of_nat (a + b + c + d + g) / (of_nat j :: rat) * 100 = 100"
    unfolding t using assms(2) by simp
  ultimately have "approxBy 2 100 (sum5 (toPercentages double e))" unfolding s by simp
  then have "\<bar>sum5 (toPercentages double e) - 100\<bar> \<le> 100 * (2 * of_nat 2 * unitRoundoff)"
    by (intro approxBy_tolerance) (simp_all add: unitRoundoff_def)
  then show ?thesis by simp
qed

lemma questionStep_double_questionStats:
  assumes "length (subItems q) * length subs \<le> 2 ^ 53"
  shows "\<exists>e. rawCounts (length (subItems q) * length subs) e
     \<and> questionStats (questionStep double subs p wq q acc) =
         (questionStats acc)(question_id q \<mapsto> toPercentages double e)"
proof -
  let ?k = "question_id q"
  let ?w = "fdiv double wq (of_nat (length (subItems q)))"
  let ?acc1 = "acc\<lparr>questionStats := (questionStats acc)(?k \<mapsto> emptyStat)\<rparr>"
  let ?acc2 = "fold (itemStep double subs p ?k ?w) (subItems q) ?acc1"
  have "rawCounts 0 emptyStat"
    unfolding rawCounts_def
    by (rule exI[of _ 0], rule exI[of _ 0], rule exI[of _ 0], rule exI[of _ 0], rule exI[of _ 0])
       (simp add: emptyStat_def)
  then have "countingEntry ?k (questionStats acc) 0 ?acc1" by (simp add: countingEntry_def)
  then have "countingEntry ?k (questionStats acc) (0 + length (subItems q) * length subs) ?acc2"
    by (rule items_counting) (use assms in simp)
  then obtain e where e: "questionStats ?acc2 ?k = Some e"
      "rawCounts (length (subItems q) * length subs) e"
    and other: "\<And>k'. k' \<noteq> ?k \<Longrightarrow> questionStats ?acc2 k' = questionStats acc k'"
    by (auto simp: countingEntry_def)
  have "questionStats (questionStep double subs p wq q acc) = (questionStats ?acc2)(?k \<mapsto> toPercentages double e)"
    using e(1) by (simp add: questionStep_def Let_def updEntry_def)
  also have "\<dots> = (questionStats acc)(?k \<mapsto> toPercentages double e)"
    using other by (auto simp: fun_eq_iff)
  finally show ?thesis using e(2) by blast
qed

lemma questionStep_pctNear:
  assumes "length (subItems q) * length subs \<le> 2 ^ 53" and "pctNear (questionStats acc)"
  shows "pctNear (questionStats (questionStep double subs p wq q acc))"
proof -
  let ?j = "length (subItems q) * length subs"
  obtain e where e: "rawCounts ?j e"
    "questionStats (questionStep double subs p wq q acc) = (questionStats acc)(question_id q \<mapsto> toPercentages double e)"
    using questionStep_double_questionStats[OF assms(1)] by blast
  have tc: "totalCount e = of_nat ?j" using e(1) unfolding rawCounts_def by blast
  have "\<bar>sum5 (toPercentages double e) - 100\<bar> \<le> 400 * unitRoundoff"
    if "0 < totalCount (toPercentages double e)"
  proof -
    from that have "0 < ?j" unfolding totalCount_toPercentages tc by (simp only: of_nat_0_less_iff)
    with e(1) show ?thesis using assms(1) by (rule percentages_near)
  qed
  then show ?thesis using assms(2) unfolding pctNear_def e(2) by auto
qed

lemma questions_pctNear:
  "\<forall>q\<in>set qs. length (subItems q) * length subs \<le> 2 ^ 53 \<Longrightarrow> pctNear (questionStats acc) \<Longrightarrow>
   pctNear (questionStats (fold (questionStep double subs p wq) qs acc))"
  by (induction qs arbitrary: acc) (simp_all add: questionStep_pctNear)

section \<open>The aggregator in exact arithmetic\<close>

lemma exact_ops: "fadd exact a b = a + b" "fmul exact a b = a * b" "fdiv exact a b = a / b"
  by (simp_all add: fadd_def fmul_def fdiv_def exact_def)

lemma sum5_addTo: "sum5 (addTo exact c d r) = sum5 r + d"
  by (cases c) (simp_all add: addTo_def sum5_def exact_ops)

lemma totalWeight_addTo: "totalWeight (addTo rnd c d g) = totalWeight g"
  by (cases c) (simp_all add: addTo_def)

lemma totalCount_addTo: "totalCount (addTo rnd c d e) = totalCount e"
  by (cases c) (simp_all add: addTo_def)

lemma sum5_totalWeight_update: "sum5 (g\<lparr>totalWeight := x\<rparr>) = sum5 g"
  by (simp add: sum5_def)

lemma sum5_totalCount_update: "sum5 (e\<lparr>totalCount := x\<rparr>) = sum5 e"
  by (simp add: sum5_def)

lemma studentStep_balanced:
  "balanced acc \<Longrightarrow> balanced (studentStep exact subs p qId w itemId mp st acc)"
  by (simp add: balanced_def studentStep_globalStats sum5_addTo sum5_totalWeight_update
      totalWeight_addTo exact_ops)

lemma itemStep_balanced: "balanced acc \<Longrightarrow> balanced (itemStep exact subs p qId w item acc)"
  unfolding itemStep_def Let_def by (rule fold_preserves) (simp_all add: studentStep_balanced)

lemma questionStep_balanced: "balanced acc \<Longrightarrow> balanced (questionStep exact subs p wq q acc)"
proof -
  assume b: "balanced acc"
  let ?acc1 = "acc\<lparr>questionStats := (questionStats acc)(question_id q \<mapsto> emptyStat)\<rparr>"
  have "balanced ?acc1" using b by (simp add: balanced_def)
  then have "balanced (fold (itemStep exact subs p (question_id q)
      (fdiv exact wq (of_nat (length (subItems q))))) (subItems q) ?acc1)"
    by (rule fold_preserves[rotated]) (simp add: itemStep_balanced)
  then show ?thesis by (simp add: balanced_def questionStep_globalStats)
qed

lemma initial_balanced: "balanced initialStats"
  by (simp add: balanced_def initialStats_def sum5_def)

lemma exact_balanced:
  "balanced (fold (questionStep exact subs p wq) qs initialStats)"
  by (rule fold_preserves) (simp_all add: questionStep_balanced initial_balanced)

text \<open>In exact arithmetic each loop level adds a fixed amount to \<open>totalWeight\<close> per iteration.\<close>

lemma fold_totalWeight:
  assumes "\<And>x s. totalWeight (globalStats (f x s)) = totalWeight (globalStats s) + c"
  shows "totalWeight (globalStats (fold f xs s)) = totalWeight (globalStats s) + of_nat (length xs) * c"
  by (induction xs arbitrary: s) (simp_all add: assms algebra_simps)

lemma studentStep_totalWeight:
  "totalWeight (globalStats (studentStep exact subs p qId w itemId mp st acc)) =
     totalWeight (globalStats acc) + (1 / of_nat (length subs)) * w"
  by (simp add: studentStep_globalStats totalWeight_addTo exact_ops)

lemma itemStep_totalWeight:
  assumes "subs \<noteq> []"
  shows "totalWeight (globalStats (itemStep exact subs p qId w item acc)) = totalWeight (globalStats acc) + w"
proof -
  have "totalWeight (globalStats (itemStep exact subs p qId w item acc)) =
          totalWeight (globalStats acc) + of_nat (length subs) * ((1 / of_nat (length subs)) * w)"
    unfolding itemStep_def Let_def by (rule fold_totalWeight) (rule studentStep_totalWeight)
  moreover have "of_nat (length subs) * ((1 / of_nat (length subs)) * w) = w"
    using assms by simp
  ultimately show ?thesis by simp
qed

lemma questionStep_totalWeight:
  assumes "subs \<noteq> []"
  shows "totalWeight (globalStats (questionStep exact subs p wq q acc)) = totalWeight (globalStats acc) + wq"
proof -
  let ?n = "of_nat (length (subItems q)) :: rat"
  let ?acc1 = "acc\<lparr>questionStats := (questionStats acc)(question_id q \<mapsto> emptyStat)\<rparr>"
  have "totalWeight (globalStats (fold (itemStep exact subs p (question_id q) (wq / ?n)) (subItems q) ?acc1)) =
          totalWeight (globalStats ?acc1) + ?n * (wq / ?n)"
    by (rule fold_totalWeight) (rule itemStep_totalWeight[OF assms])
  moreover have "?n * (wq / ?n) = wq"
    using subItems_nonempty[of q] by simp
  ultimately show ?thesis by (simp add: questionStep_globalStats exact_ops)
qed

lemma exact_totalWeight:
  assumes "qs \<noteq> []" and "subs \<noteq> []"
  shows "totalWeight (globalStats
           (fold (questionStep exact subs p (fdiv exact 100 (of_nat (length qs)))) qs initialStats)) = 100"
proof -
  let ?n = "of_nat (length qs) :: rat"
  have "totalWeight (globalStats (fold (questionStep exact subs p (100 / ?n)) qs initialStats))
          = totalWeight (globalStats initialStats) + ?n * (100 / ?n)"
    by (rule fold_totalWeight) (rule questionStep_totalWeight[OF assms(2)])
  moreover have "?n * (100 / ?n) = 100" using assms(1) by simp
  ultimately show ?thesis by (simp add: initialStats_def exact_ops)
qed

text \<open>The per-question counters in exact arithmetic.\<close>

lemma studentStep_rawEntry:
  "rawEntry k qs0 acc \<Longrightarrow> rawEntry k qs0 (studentStep exact subs p k w itemId mp st acc)"
  by (auto simp: rawEntry_def studentStep_questionStats updEntry_def
      sum5_totalCount_update sum5_addTo exact_ops)

lemma itemStep_rawEntry:
  "rawEntry k qs0 acc \<Longrightarrow> rawEntry k qs0 (itemStep exact subs p k w item acc)"
  unfolding itemStep_def Let_def by (rule fold_preserves) (simp_all add: studentStep_rawEntry)

lemma sum5_toPercentages:
  assumes "sum5 e = totalCount e" and "0 < totalCount e"
  shows "sum5 (toPercentages exact e) = 100"
proof -
  have "sum5 (toPercentages exact e) = (sum5 e / totalCount e) * 100"
    using assms(2) by (simp add: toPercentages_def Let_def sum5_def exact_ops add_divide_distrib algebra_simps)
  then show ?thesis using assms by simp
qed

lemma questionStep_exact_questionStats:
  "\<exists>e. sum5 e = totalCount e
     \<and> questionStats (questionStep exact subs p wq q acc) =
         (questionStats acc)(question_id q \<mapsto> toPercentages exact e)"
proof -
  let ?k = "question_id q"
  let ?acc1 = "acc\<lparr>questionStats := (questionStats acc)(?k \<mapsto> emptyStat)\<rparr>"
  let ?acc2 = "fold (itemStep exact subs p ?k (fdiv exact wq (of_nat (length (subItems q))))) (subItems q) ?acc1"
  have "rawEntry ?k (questionStats acc) ?acc1"
    by (simp add: rawEntry_def emptyStat_def sum5_def)
  then have "rawEntry ?k (questionStats acc) ?acc2"
    by (rule fold_preserves[rotated]) (rule itemStep_rawEntry)
  then obtain e where e: "questionStats ?acc2 ?k = Some e" "sum5 e = totalCount e"
    and other: "\<And>k'. k' \<noteq> ?k \<Longrightarrow> questionStats ?acc2 k' = questionStats acc k'"
    by (auto simp: rawEntry_def)
  have "questionStats (questionStep exact subs p wq q acc) = (questionStats ?acc2)(?k \<mapsto> toPercentages exact e)"
    using e(1) by (simp add: questionStep_def Let_def updEntry_def)
  also have "\<dots> = (questionStats acc)(?k \<mapsto> toPercentages exact e)"
    using other by (auto simp: fun_eq_iff)
  finally show ?thesis using e(2) by blast
qed

lemma questionStep_pctOK:
  "pctOK (questionStats acc) \<Longrightarrow> pctOK (questionStats (questionStep exact subs p wq q acc))"
proof -
  assume a: "pctOK (questionStats acc)"
  obtain e where e: "sum5 e = totalCount e"
    "questionStats (questionStep exact subs p wq q acc) = (questionStats acc)(question_id q \<mapsto> toPercentages exact e)"
    using questionStep_exact_questionStats by blast
  show ?thesis
    using a e(1) unfolding pctOK_def e(2)
    by (auto simp: sum5_toPercentages totalCount_toPercentages)
qed

lemma questions_pctOK:
  "pctOK (questionStats (fold (questionStep exact subs p wq) qs initialStats))"
proof (rule fold_preserves)
  show "pctOK (questionStats initialStats)" by (simp add: pctOK_def initialStats_def)
qed (rule questionStep_pctOK)

text \<open>Every processed question leaves an entry under its id.\<close>

lemma questions_exact_dom:
  "dom (questionStats (fold (questionStep exact subs p wq) qs acc)) =
     dom (questionStats acc) \<union> question_id ` set qs"
proof (induction qs arbitrary: acc)
  case Nil
  then show ?case by simp
next
  case (Cons q qs)
  obtain e where "questionStats (questionStep exact subs p wq q acc) =
      (questionStats acc)(question_id q \<mapsto> toPercentages exact e)"
    using questionStep_exact_questionStats by blast
  then have "dom (questionStats (questionStep exact subs p wq q acc)) =
      insert (question_id q) (dom (questionStats acc))" by simp
  with Cons.IH[of "questionStep exact subs p wq q acc"] show ?case by auto
qed

lemma questions_double_dom:
  "\<forall>q\<in>set qs. length (subItems q) * length subs \<le> 2 ^ 53 \<Longrightarrow>
   dom (questionStats (fold (questionStep double subs p wq) qs acc)) =
     dom (questionStats acc) \<union> question_id ` set qs"
proof (induction qs arbitrary: acc)
  case Nil
  then show ?case by simp
next
  case (Cons q qs)
  have "length (subItems q) * length subs \<le> 2 ^ 53" using Cons.prems by simp
  from questionStep_double_questionStats[OF this] obtain e where
    "questionStats (questionStep double subs p wq q acc) =
      (questionStats acc)(question_id q \<mapsto> toPercentages double e)" by blast
  then have "dom (questionStats (questionStep double subs p wq q acc)) =
      insert (question_id q) (dom (questionStats acc))" by simp
  with Cons.IH[of "questionStep double subs p wq q acc"] Cons.prems show ?case by auto
qed

section \<open>Evaluation of the examples\<close>

text \<open>
  Concrete values are computed by the kernel. The operations met on the examples are
  evaluated one by one and then used as rewrite rules.
\<close>

lemma double_values:
  "double 1 = 1" "double 2 = 2" "double 50 = 50" "double 100 = 100" "double (1 / 2) = 1 / 2"
  by code_simp+

lemma scorePercentage_example: "scorePercentage double 8 10 = 80"
  by code_simp

text \<open>
  57 points of 100 give 56.99999999999999, not 57: with a score threshold of 57 the item
  is below the threshold as the program computes it.
\<close>

lemma scorePercentage_rounds:
  "scorePercentage double 57 100 = 8022036836253695 / 140737488355328"
  "scorePercentage double 57 100 < 57"
  by code_simp+

lemma rounded_percentage_below_threshold:
  "determineCategory double 90 57 100 0
     \<lparr>aiConfidenceThreshold = 80, studentScoreThreshold = 57\<rparr> = LowScore"
  by (simp add: determineCategory_def scorePercentage_rounds(1))

lemmas example_defs =
  exampleThresholds_def studentA_def studentB_def studentA2_def questionQ1_def
  exampleRepository_def studentC_def questionQ1A_def questionQ1B_def parentQ1_def
  parentRepository_def defaultStorage_def zeroStorage_def zeroThresholds_def exampleResult_def
  exampleItems_def noQuestionsRepository_def missingQuestionsRepository_def

lemma example_operations:
  "fdiv double 100 3 = 4691249611844267 / 140737488355328"
  "fdiv double (4691249611844267 / 140737488355328) 1 = 4691249611844267 / 140737488355328"
  "fadd double 0 1 = 1"
  "fdiv double 1 3 = 6004799503160661 / 18014398509481984"
  "fmul double (6004799503160661 / 18014398509481984) (4691249611844267 / 140737488355328) = 3127499741229511 / 281474976710656"
  "fadd double 0 (3127499741229511 / 281474976710656) = 3127499741229511 / 281474976710656"
  "fadd double 1 1 = 2"
  "fadd double (3127499741229511 / 281474976710656) (3127499741229511 / 281474976710656) = 3127499741229511 / 140737488355328"
  "fadd double 2 1 = 3"
  "fadd double (3127499741229511 / 140737488355328) (3127499741229511 / 281474976710656) = 2345624805922133 / 70368744177664"
  "fdiv double 2 3 = 6004799503160661 / 9007199254740992"
  "fmul double (6004799503160661 / 9007199254740992) 100 = 2345624805922133 / 35184372088832"
  "fmul double (6004799503160661 / 18014398509481984) 100 = 2345624805922133 / 70368744177664"
  "fdiv double 0 3 = 0"
  "fmul double 0 100 = 0"
  "fadd double (2345624805922133 / 70368744177664) (3127499741229511 / 281474976710656) = 3127499741229511 / 70368744177664"
  "fadd double (3127499741229511 / 70368744177664) (3127499741229511 / 281474976710656) = 3909374676536889 / 70368744177664"
  "fadd double (3909374676536889 / 70368744177664) (3127499741229511 / 281474976710656) = 4691249611844267 / 70368744177664"
  "fadd double (4691249611844267 / 70368744177664) (3127499741229511 / 281474976710656) = 5473124547151645 / 70368744177664"
  "fadd double (5473124547151645 / 70368744177664) (3127499741229511 / 281474976710656) = 6254999482459023 / 70368744177664"
  "fadd double (6254999482459023 / 70368744177664) (3127499741229511 / 281474976710656) = 7036874417766401 / 70368744177664"
  "fdiv double 100 1 = 100"
  "fadd double 0 (2345624805922133 / 70368744177664) = 2345624805922133 / 70368744177664"
  "fadd double (2345624805922133 / 70368744177664) (2345624805922133 / 70368744177664) = 2345624805922133 / 35184372088832"
  "fadd double (2345624805922133 / 35184372088832) (2345624805922133 / 70368744177664) = 7036874417766399 / 70368744177664"
  by code_simp+

lemmas evaluation_defs =
  calculateGradingStats_def questionStep_def itemStep_def studentStep_def pairCategory_def
  findGrade_def updEntry_def addTo_def subItems_def emptyStat_def toPercentages_def
  initialStats_def orZero_def determineCategory_def Let_def

lemma oneByThree_stats:
  "calculateGradingStats double (Some oneByThreeRepository) exampleThresholds = Some oneByThreeResult"
  by (simp add: oneByThreeRepository_def oneByThreeResult_def questionQ1_def studentA_def
      studentB_def exampleThresholds_def evaluation_defs example_operations scorePercentage_example)

lemma oneByThree_stats_exact:
  "calculateGradingStats exact (Some oneByThreeRepository) exampleThresholds = Some oneByThreeExact"
  by (simp add: oneByThreeRepository_def oneByThreeExact_def questionQ1_def studentA_def
      studentB_def exampleThresholds_def evaluation_defs exact_ops scorePercentage_def)

lemma example_stats_exact:
  "calculateGradingStats exact (Some exampleRepository) exampleThresholds = Some exampleResult"
  by (simp add: example_defs evaluation_defs exact_ops scorePercentage_def)

lemma scorePercentage_zero: "scorePercentage double 0 m = 0"
  by (simp add: scorePercentage_def fmul_def fdiv_def double_zero)

lemmas triage_defs =
  renderStudentExamsList_def allItems_def studentEntries_def questionEntries_def subEntry_def
  mkItem_def itemCategory_def itemConfidence_def gradeOf_def fieldOrZero_def orZero_def
  getCategory_def getCategoryCode_def storedThresholds_def determineCategory_def
  sortBy_def compareItems_def Let_def

lemma example_list:
  "renderStudentExamsList double defaultStorage [] [] (Some parentRepository) = Inr (ExamList exampleItems)"
  by (simp add: example_defs triage_defs)

text \<open>
  A repository that has \<open>questions\<close> but no \<open>studentSubmissions\<close> passes the guard of
  \<open>renderStudentExamsList\<close> and fails in the loop over the submissions.
\<close>

lemma render_missing_submissions:
  "renderStudentExamsList rnd storage sq ss (Some \<lparr>questions = Some qs, studentSubmissions = None\<rparr>)
     = Inl TypeError"
  by (simp add: renderStudentExamsList_def)

section \<open>Classifier properties\<close>

text \<open>
  C1. For every confidence, score, maxPoints, manualStatus and thresholds,
  \<open>determineCategory\<close> returns the first matching case of the six-step order of the
  specification: graded2Plus when manualStatus \<ge> 2; else gradedOnce when
  manualStatus = 1; else, with scorePercentage = (score / maxPoints) * 100 when
  maxPoints > 0 and 0 otherwise, aiLow when confidence is below the confidence
  threshold; else lowScore when scorePercentage is below the score threshold; else aiHigh.
  This holds in the arithmetic of the program (\<open>double\<close>) as in any other.
\<close>

theorem determineCategory_first_match:
  "classify_spec rnd conf score maxPoints mStatus th =
     Some (determineCategory rnd conf score maxPoints mStatus th)"
  by (simp add: classify_spec_def determineCategory_def scorePercentage_def)

text \<open>
  C8. Threshold ties resolve to the passing branch: both comparisons are strict.
  A confidence equal to the confidence threshold is never classified aiLow (for
  manualStatus 0 as for any other), and a score percentage that, as the program computes
  it, equals the score threshold is never classified lowScore (whether or not the
  confidence passes). The percentage is the rounded one: 57 points of 100 give
  56.99999999999999 (\<open>scorePercentage_rounds\<close>), which is no tie with a threshold of 57
  (\<open>rounded_percentage_below_threshold\<close>).
\<close>

theorem determineCategory_ties_pass:
  "determineCategory rnd T score maxPoints mStatus
      \<lparr>aiConfidenceThreshold = T, studentScoreThreshold = S\<rparr> \<noteq> AiLow
   \<and> (scorePercentage rnd score maxPoints = S \<longrightarrow>
        determineCategory rnd conf score maxPoints mStatus
          \<lparr>aiConfidenceThreshold = A, studentScoreThreshold = S\<rparr> \<noteq> LowScore)"
  by (simp add: determineCategory_def)

theorem determineCategory_ties_pass_witness:
  "determineCategory double 80 5 10 0
      \<lparr>aiConfidenceThreshold = 80, studentScoreThreshold = 50\<rparr> \<noteq> AiLow
   \<and> scorePercentage double 5 10 = 50
   \<and> determineCategory double 90 5 10 0
          \<lparr>aiConfidenceThreshold = 80, studentScoreThreshold = 50\<rparr> \<noteq> LowScore"
proof -
  have s: "scorePercentage double 5 10 = 50" by code_simp
  show ?thesis
    using determineCategory_ties_pass [of double 80 5 10 0 50 90 80] s by simp
qed

section \<open>Missing data and missing grades\<close>

text \<open>
  C6. \<open>calculateGradingStats\<close> returns the "no data" sentinel \<open>null\<close> exactly when the
  repository is absent or lacks the \<open>questions\<close> field or the \<open>studentSubmissions\<close> field
  (it has no failing branch, so it returns the sentinel there rather than throwing);
  and when the repository is absent or lacks \<open>questions\<close>, the triage list builder
  renders the placeholder instead of throwing.
\<close>

theorem missing_data_sentinel:
  "(calculateGradingStats rnd repo p = None) =
     (lacksField repo questions \<or> lacksField repo studentSubmissions)
   \<and> (lacksField repo questions \<longrightarrow>
        renderStudentExamsList rnd storage sq ss repo = Inr NoExamData)"
  by (auto simp: calculateGradingStats_def renderStudentExamsList_def lacksField_def Let_def
      split: option.splits)

theorem missing_data_sentinel_witness:
  "lacksField (Some missingQuestionsRepository) questions
   \<and> calculateGradingStats double (Some missingQuestionsRepository) exampleThresholds = None
   \<and> renderStudentExamsList double defaultStorage [] [] (Some missingQuestionsRepository)
       = Inr NoExamData"
  using missing_data_sentinel [of double "Some missingQuestionsRepository" exampleThresholds
      defaultStorage "[]" "[]"]
  by (simp add: lacksField_def missingQuestionsRepository_def)

lemma find_own:
  assumes "st \<in> set subs" and "distinct (map student_id subs)"
  shows "find (\<lambda>s. student_id s = student_id st) subs = Some st"
  using assms by (induction subs) (auto simp: rev_image_eqI)

lemma gradeOf_none: "noGradeEntry st qId \<Longrightarrow> gradeOf st qId = None"
  by (auto simp: noGradeEntry_def gradeOf_def find_None_iff split: option.splits)

lemma findGrade_own:
  assumes "st \<in> set subs" and "distinct (map student_id subs)"
  shows "findGrade subs (student_id st) qId = gradeOf st qId"
  by (simp add: findGrade_def gradeOf_def find_own[OF assms])

lemma determineCategory_implicit:
  "0 < aiConfidenceThreshold p \<Longrightarrow> determineCategory rnd 0 0 mp 0 p = AiLow"
  by (simp add: determineCategory_def)

text \<open>
  C5, as stated, fails when the confidence threshold is 0. Student C has no grade for
  \<open>Q1.B\<close>; with a stored confidence threshold of 0 the triage list builder classifies
  the pair as lowScore (code 1), not aiLow (code 0). The aggregator still counts the
  pair as aiLow, which at that threshold is not the classification of the implicit
  grade \<open>{confidence: 0, score: 0, manualStatus: 0}\<close>. It also fails in the aggregator
  when two submissions share an id: the lookup by id finds the grades of the first of
  them, so the second, which has no grade, is classified by the grade of the first.
\<close>

theorem missing_grade_zero_threshold_counterexample:
  "noGradeEntry studentC (question_id questionQ1B)
   \<and> itemCategory double zeroStorage studentC questionQ1B = 1
   \<and> getCategoryCode AiLow = 0
   \<and> pairCategory double [studentC] zeroThresholds (question_id questionQ1B)
        (orZero (points questionQ1B)) studentC = AiLow
   \<and> determineCategory double 0 0 (orZero (points questionQ1B)) 0 zeroThresholds = LowScore
   \<and> noGradeEntry studentA2 (question_id questionQ1)
   \<and> pairCategory double [studentA, studentA2] exampleThresholds (question_id questionQ1)
        (orZero (points questionQ1)) studentA2 = AiHigh"
  by (simp add: example_defs noGradeEntry_def triage_defs pairCategory_def findGrade_def
      scorePercentage_zero scorePercentage_example)

text \<open>
  C5, amended. Let a student have no grade entry for the id of a gradable item.
  The aggregator classifies the pair as aiLow for every threshold setting, provided the
  student is one of the submissions and the student ids are distinct (the lookup goes
  through the student id). The triage list builder classifies the pair as the implicit
  grade \<open>{confidence: 0, score: 0, manualStatus: 0}\<close> for every threshold setting, and
  that is aiLow whenever the confidence threshold is positive; likewise the classifier
  maps the implicit grade to aiLow whenever the confidence threshold is positive.
\<close>

theorem missing_grade_is_aiLow:
  assumes "noGradeEntry st (question_id item)"
  shows "(st \<in> set subs \<and> distinct (map student_id subs) \<longrightarrow>
            pairCategory rnd subs p (question_id item) (orZero (points item)) st = AiLow)
         \<and> itemCategory rnd storage st item = getCategory rnd storage 0 0 (orZero (points item)) 0
         \<and> (0 < aiConfidenceThreshold (storedThresholds storage) \<longrightarrow>
              itemCategory rnd storage st item = getCategoryCode AiLow)
         \<and> (0 < aiConfidenceThreshold p \<longrightarrow>
              determineCategory rnd 0 0 (orZero (points item)) 0 p = AiLow)"
proof -
  have g: "gradeOf st (question_id item) = None" using assms by (rule gradeOf_none)
  have "pairCategory rnd subs p (question_id item) (orZero (points item)) st = AiLow"
    if "st \<in> set subs" "distinct (map student_id subs)"
    using findGrade_own[OF that] g by (simp add: pairCategory_def)
  moreover have i: "itemCategory rnd storage st item = getCategory rnd storage 0 0 (orZero (points item)) 0"
    using g by (simp add: itemCategory_def fieldOrZero_def)
  moreover have "itemCategory rnd storage st item = getCategoryCode AiLow"
    if "0 < aiConfidenceThreshold (storedThresholds storage)"
    unfolding i getCategory_def using that by (simp add: determineCategory_implicit)
  ultimately show ?thesis by (simp add: determineCategory_implicit)
qed

theorem missing_grade_is_aiLow_witness:
  "noGradeEntry studentB (question_id questionQ1)
   \<and> studentB \<in> set [studentA, studentB] \<and> distinct (map student_id [studentA, studentB])
   \<and> pairCategory double [studentA, studentB] exampleThresholds (question_id questionQ1)
        (orZero (points questionQ1)) studentB = AiLow
   \<and> 0 < aiConfidenceThreshold (storedThresholds defaultStorage)
   \<and> itemCategory double defaultStorage studentB questionQ1 = getCategoryCode AiLow
   \<and> 0 < aiConfidenceThreshold exampleThresholds
   \<and> determineCategory double 0 0 (orZero (points questionQ1)) 0 exampleThresholds = AiLow"
proof -
  have n: "noGradeEntry studentB (question_id questionQ1)"
    by (simp add: noGradeEntry_def studentB_def)
  show ?thesis
    using n missing_grade_is_aiLow [OF n, where subs = "[studentA, studentB]" and rnd = double
        and p = exampleThresholds and storage = defaultStorage]
    by (simp add: studentA_def studentB_def exampleThresholds_def defaultStorage_def
        storedThresholds_def)
qed

section \<open>Triage list: order\<close>

lemma compareItems_le: "(compareItems a b \<le> 0) = lexLe a b"
  by (auto simp: compareItems_def lexLe_def)

lemma lexLe_total: "\<not> lexLe a b \<Longrightarrow> lexLe b a"
  by (auto simp: lexLe_def)

lemma lexLe_trans: "lexLe a b \<Longrightarrow> lexLe b c \<Longrightarrow> lexLe a c"
  by (auto simp: lexLe_def)

lemma set_insertBy: "set (insertBy cmp x ys) = insert x (set ys)"
  by (induction ys) auto

lemma mset_insertBy: "mset (insertBy cmp x ys) = add_mset x (mset ys)"
  by (induction ys) auto

lemma mset_sortBy: "mset (sortBy cmp xs) = mset xs"
  unfolding sortBy_def by (induction xs) (simp_all add: mset_insertBy)

lemma length_sortBy: "length (sortBy cmp xs) = length xs"
  by (metis mset_sortBy size_mset)

lemma sorted_insertBy:
  "sorted_wrt lexLe ys \<Longrightarrow> sorted_wrt lexLe (insertBy compareItems x ys)"
proof (induction ys)
  case Nil
  then show ?case by simp
next
  case (Cons y ys)
  show ?case
  proof (cases "lexLe x y")
    case True
    then have "\<forall>z\<in>set ys. lexLe x z" using Cons.prems by (auto intro: lexLe_trans)
    with True Cons.prems show ?thesis by (simp add: compareItems_le)
  next
    case False
    then have "lexLe y x" by (rule lexLe_total)
    with False Cons show ?thesis by (auto simp: compareItems_le set_insertBy)
  qed
qed

lemma sorted_sortBy: "sorted_wrt lexLe (sortBy compareItems xs)"
  unfolding sortBy_def by (induction xs) (simp_all add: sorted_insertBy)

lemma lexLe_category: "lexLe a b \<Longrightarrow> item_category a \<le> item_category b"
  by (auto simp: lexLe_def)

lemma render_items:
  assumes "renderStudentExamsList rnd storage sq ss repo = Inr (ExamList items)"
  shows "\<exists>r qs subs. repo = Some r \<and> questions r = Some qs \<and> studentSubmissions r = Some subs
           \<and> items = sortBy compareItems (allItems rnd storage sq ss qs subs)"
  using assms by (auto simp: renderStudentExamsList_def split: option.splits)

text \<open>
  C3. For every repository, thresholds and filters, the list the triage list builder
  produces is sorted ascending by (category, confidence): of two entries the earlier
  one has the smaller category, or the same category and a confidence that is not
  larger. In particular the sequence of category codes is non-decreasing, and the
  confidences are non-decreasing within each run of equal categories.
\<close>

theorem triage_list_sorted:
  assumes "renderStudentExamsList rnd storage sq ss repo = Inr (ExamList items)"
  shows "sorted_wrt (\<lambda>a b. item_category a < item_category b
            \<or> (item_category a = item_category b \<and> item_confidence a \<le> item_confidence b)) items
         \<and> sorted (map item_category items)"
proof -
  from render_items[OF assms] have s: "sorted_wrt lexLe items"
    by (auto simp: sorted_sortBy)
  then have "sorted_wrt (\<lambda>a b. item_category a \<le> item_category b) items"
    by (rule sorted_wrt_mono_rel[rotated]) (simp add: lexLe_category)
  then have "sorted (map item_category items)"
    by (simp add: sorted_map)
  with s show ?thesis unfolding lexLe_def by simp
qed

theorem triage_list_sorted_witness:
  "renderStudentExamsList double defaultStorage [] [] (Some parentRepository) = Inr (ExamList exampleItems)
   \<and> sorted_wrt (\<lambda>a b. item_category a < item_category b
            \<or> (item_category a = item_category b \<and> item_confidence a \<le> item_confidence b))
        exampleItems
   \<and> sorted (map item_category exampleItems)"
  using triage_list_sorted [OF example_list] example_list by simp

section \<open>Triage list: parent and subquestion entries\<close>

lemma Math_min_Min: "Math_min x xs = Min (set (x # xs))"
proof (induction xs arbitrary: x)
  case Nil
  then show ?case by simp
next
  case (Cons y ys)
  have "Math_min x (y # ys) = Min (insert (min x y) (set ys))" using Cons by simp
  also have "\<dots> = Min (set (x # y # ys))"
    by (cases "ys = []") (simp_all add: min.assoc)
  finally show ?case .
qed

lemma questionEntries_parent:
  assumes "subquestions q = Some subs" and "subs \<noteq> []"
  shows "questionEntries rnd storage sq st q =
           map (subEntry rnd storage st)
             (filter (\<lambda>sub. sq = [] \<or> question_id sub = sq) subs)
           @ (if sq = [] \<or> question_id q = sq then [parentItem rnd storage st q subs] else [])"
proof -
  obtain s ss where subs: "subs = s # ss" using assms(2) by (cases subs) auto
  show ?thesis
    using assms(1) unfolding subs
    by (simp add: questionEntries_def Let_def Math_min_Min parentItem_def)
qed

lemma set_allItems:
  "set (allItems rnd storage sq ss qs subs) =
     (\<Union>st \<in> {st \<in> set subs. ss = [] \<or> student_name st = ss}.
        \<Union>q \<in> set qs. set (questionEntries rnd storage sq st q))"
  by (auto simp: allItems_def studentEntries_def)

lemma studentEntries_nofilter:
  "studentEntries rnd storage sq [] qs = (\<lambda>st. concat (map (questionEntries rnd storage sq st) qs))"
  by (simp add: fun_eq_iff studentEntries_def)

lemma length_allItems:
  "length (allItems rnd storage [] [] qs subs) =
     sum_list (map (\<lambda>st. sum_list (map (\<lambda>q. length (questionEntries rnd storage [] st q)) qs)) subs)"
  by (simp add: allItems_def studentEntries_def length_concat comp_def)

lemma mkItem_fields:
  "taskName (mkItem st qId conf cat) = student_name st @ '' - '' @ qId"
  "item_confidence (mkItem st qId conf cat) = conf"
  "item_category (mkItem st qId conf cat) = cat"
  "studentName (mkItem st qId conf cat) = student_name st"
  "item_questionId (mkItem st qId conf cat) = qId"
  by (simp_all add: mkItem_def)

text \<open>
  C4. For every student and every top-level question with a non-empty \<open>subquestions\<close>
  list that passes the question filter, the parent-level entry (the last entry pushed
  for the question) has as its category the minimum of the categories computed for the
  subquestions, as its confidence the minimum of their confidences, the question's id
  and the student's name; and it is an entry of the rendered list whenever the student
  and the question belong to the repository and the student passes the student filter.
\<close>

theorem parent_entry_is_min:
  assumes "subquestions q = Some subs" and "subs \<noteq> []"
    and "sq = [] \<or> question_id q = sq"
  shows "item_category (last (questionEntries rnd storage sq st q))
           = Min (set (map (itemCategory rnd storage st) subs))
         \<and> item_confidence (last (questionEntries rnd storage sq st q))
           = Min (set (map (itemConfidence st) subs))
         \<and> item_questionId (last (questionEntries rnd storage sq st q)) = question_id q
         \<and> studentName (last (questionEntries rnd storage sq st q)) = student_name st
         \<and> (renderStudentExamsList rnd storage sq ss (Some r) = Inr (ExamList items)
              \<and> questions r = Some qs \<and> q \<in> set qs
              \<and> studentSubmissions r = Some students \<and> st \<in> set students
              \<and> (ss = [] \<or> student_name st = ss)
              \<longrightarrow> last (questionEntries rnd storage sq st q) \<in> set items)"
proof -
  have qe: "questionEntries rnd storage sq st q =
           map (subEntry rnd storage st) (filter (\<lambda>sub. sq = [] \<or> question_id sub = sq) subs)
           @ [parentItem rnd storage st q subs]"
    using questionEntries_parent[OF assms(1,2)] assms(3) by simp
  then have l: "last (questionEntries rnd storage sq st q) = parentItem rnd storage st q subs" by simp
  have "last (questionEntries rnd storage sq st q) \<in> set items"
    if "renderStudentExamsList rnd storage sq ss (Some r) = Inr (ExamList items)"
      "questions r = Some qs" "q \<in> set qs" "studentSubmissions r = Some students"
      "st \<in> set students" "ss = [] \<or> student_name st = ss"
  proof -
    have "items = sortBy compareItems (allItems rnd storage sq ss qs students)"
      using that(1,2,4) by (simp add: renderStudentExamsList_def)
    then have "set items = set (allItems rnd storage sq ss qs students)"
      by (metis mset_sortBy set_mset_mset)
    moreover have "parentItem rnd storage st q subs \<in> set (questionEntries rnd storage sq st q)"
      unfolding qe by simp
    ultimately show ?thesis
      unfolding l set_allItems using that(3,5,6) by blast
  qed
  with l show ?thesis by (simp add: parentItem_def mkItem_fields)
qed

theorem parent_entry_is_min_witness:
  "subquestions parentQ1 = Some [questionQ1A, questionQ1B] \<and> [questionQ1A, questionQ1B] \<noteq> []
   \<and> renderStudentExamsList double defaultStorage [] [] (Some parentRepository)
       = Inr (ExamList exampleItems)
   \<and> questions parentRepository = Some [parentQ1] \<and> parentQ1 \<in> set [parentQ1]
   \<and> studentSubmissions parentRepository = Some [studentC] \<and> studentC \<in> set [studentC]
   \<and> map (itemCategory double defaultStorage studentC) [questionQ1A, questionQ1B] = [4, 0]
   \<and> map (itemConfidence studentC) [questionQ1A, questionQ1B] = [90, 0]
   \<and> item_category (last (questionEntries double defaultStorage [] studentC parentQ1)) = 0
   \<and> item_confidence (last (questionEntries double defaultStorage [] studentC parentQ1)) = 0
   \<and> item_questionId (last (questionEntries double defaultStorage [] studentC parentQ1)) = ''Q1''
   \<and> last (questionEntries double defaultStorage [] studentC parentQ1) \<in> set exampleItems"
proof -
  have s: "subquestions parentQ1 = Some [questionQ1A, questionQ1B]"
    by (simp add: parentQ1_def)
  have n: "[questionQ1A, questionQ1B] \<noteq> []" by simp
  have q: "questions parentRepository = Some [parentQ1]"
    and u: "studentSubmissions parentRepository = Some [studentC]"
    by (simp_all add: parentRepository_def)
  have cs: "map (itemCategory double defaultStorage studentC) [questionQ1A, questionQ1B] = [4, 0]"
    by (simp add: example_defs triage_defs)
  have ds: "map (itemConfidence studentC) [questionQ1A, questionQ1B] = [90, 0]"
    by (simp add: example_defs triage_defs)
  have c: "Min (set (map (itemCategory double defaultStorage studentC) [questionQ1A, questionQ1B])) = 0"
    unfolding cs by simp
  have d: "Min (set (map (itemConfidence studentC) [questionQ1A, questionQ1B])) = 0"
    unfolding ds by simp
  have i: "question_id parentQ1 = ''Q1''" by (simp add: parentQ1_def)
  note t = parent_entry_is_min [OF s n, where sq = "[]" and rnd = double
      and storage = defaultStorage and st = studentC and ss = "[]" and r = parentRepository
      and items = exampleItems and qs = "[parentQ1]" and students = "[studentC]",
      unfolded c d i]
  have e: "parentQ1 \<in> set [parentQ1]" "studentC \<in> set [studentC]"
    "([]::string) = [] \<or> student_name studentC = []"
    by simp_all
  have l: "item_category (last (questionEntries double defaultStorage [] studentC parentQ1)) = 0"
    "item_confidence (last (questionEntries double defaultStorage [] studentC parentQ1)) = 0"
    "item_questionId (last (questionEntries double defaultStorage [] studentC parentQ1)) = ''Q1''"
    using t by blast+
  have m: "last (questionEntries double defaultStorage [] studentC parentQ1) \<in> set exampleItems"
    using t example_list q u e by blast
  show ?thesis using s n example_list q u cs ds l m by simp
qed

text \<open>
  C9. Without a question filter, a top-level question with a non-empty \<open>subquestions\<close>
  list contributes, for a student, exactly 1 + |subquestions| entries: one per
  subquestion, in order, whose id, category and confidence are the subquestion's own,
  followed by the parent-level entry with the question's id and the two minima.
  Without any filter the rendered list consists of exactly the contributions of all
  (student, question) pairs: it is a permutation of their concatenation and its length
  is the sum of their lengths.
\<close>

theorem parent_contributes_all_entries:
  assumes "subquestions q = Some subs" and "subs \<noteq> []"
  shows "length (questionEntries rnd storage [] st q) = 1 + length subs
         \<and> map item_questionId (questionEntries rnd storage [] st q)
             = map question_id subs @ [question_id q]
         \<and> map item_category (questionEntries rnd storage [] st q)
             = map (itemCategory rnd storage st) subs
               @ [Min (set (map (itemCategory rnd storage st) subs))]
         \<and> map item_confidence (questionEntries rnd storage [] st q)
             = map (itemConfidence st) subs @ [Min (set (map (itemConfidence st) subs))]
         \<and> (renderStudentExamsList rnd storage [] [] (Some r) = Inr (ExamList items)
              \<and> questions r = Some qs \<and> studentSubmissions r = Some students
              \<longrightarrow> mset items =
                    mset (concat (map (\<lambda>st. concat (map (questionEntries rnd storage [] st) qs)) students))
                  \<and> length items =
                    sum_list (map (\<lambda>st. sum_list (map (\<lambda>q. length (questionEntries rnd storage [] st q)) qs)) students))"
proof -
  have qe: "questionEntries rnd storage [] st q =
           map (subEntry rnd storage st) subs @ [parentItem rnd storage st q subs]"
    using questionEntries_parent[OF assms, of rnd storage "[]" st] by simp
  have "mset items = mset (concat (map (\<lambda>st. concat (map (questionEntries rnd storage [] st) qs)) students))
        \<and> length items = sum_list (map (\<lambda>st. sum_list (map (\<lambda>q. length (questionEntries rnd storage [] st q)) qs)) students)"
    if "renderStudentExamsList rnd storage [] [] (Some r) = Inr (ExamList items)"
      "questions r = Some qs" "studentSubmissions r = Some students"
  proof -
    have i: "items = sortBy compareItems (allItems rnd storage [] [] qs students)"
      using that by (simp add: renderStudentExamsList_def)
    have "allItems rnd storage [] [] qs students =
            concat (map (\<lambda>st. concat (map (questionEntries rnd storage [] st) qs)) students)"
      by (simp add: allItems_def studentEntries_nofilter)
    then show ?thesis
      unfolding i by (simp add: mset_sortBy length_sortBy length_allItems[symmetric])
  qed
  then show ?thesis
    unfolding qe by (simp add: parentItem_def subEntry_def mkItem_fields comp_def)
qed

theorem parent_contributes_all_entries_witness:
  "subquestions parentQ1 = Some [questionQ1A, questionQ1B] \<and> [questionQ1A, questionQ1B] \<noteq> []
   \<and> renderStudentExamsList double defaultStorage [] [] (Some parentRepository)
       = Inr (ExamList exampleItems)
   \<and> questions parentRepository = Some [parentQ1]
   \<and> studentSubmissions parentRepository = Some [studentC]
   \<and> length (questionEntries double defaultStorage [] studentC parentQ1) = 3
   \<and> map item_questionId (questionEntries double defaultStorage [] studentC parentQ1)
       = [''Q1.A'', ''Q1.B'', ''Q1'']
   \<and> map item_category (questionEntries double defaultStorage [] studentC parentQ1) = [4, 0, 0]
   \<and> map item_confidence (questionEntries double defaultStorage [] studentC parentQ1) = [90, 0, 0]
   \<and> length exampleItems = 3"
proof -
  have s: "subquestions parentQ1 = Some [questionQ1A, questionQ1B]"
    by (simp add: parentQ1_def)
  have n: "[questionQ1A, questionQ1B] \<noteq> []" by simp
  have q: "questions parentRepository = Some [parentQ1]"
    and u: "studentSubmissions parentRepository = Some [studentC]"
    by (simp_all add: parentRepository_def)
  have cs: "map (itemCategory double defaultStorage studentC) [questionQ1A, questionQ1B] = [4, 0]"
    by (simp add: example_defs triage_defs)
  have ds: "map (itemConfidence studentC) [questionQ1A, questionQ1B] = [90, 0]"
    by (simp add: example_defs triage_defs)
  have i: "map question_id [questionQ1A, questionQ1B] = [''Q1.A'', ''Q1.B'']" "question_id parentQ1 = ''Q1''"
    by (simp_all add: parentQ1_def questionQ1A_def questionQ1B_def)
  note t = parent_contributes_all_entries [OF s n, where rnd = double and storage = defaultStorage
      and st = studentC and r = parentRepository and items = exampleItems and qs = "[parentQ1]"
      and students = "[studentC]", unfolded cs ds i]
  have l: "length (questionEntries double defaultStorage [] studentC parentQ1)
          = 1 + length [questionQ1A, questionQ1B]"
    using t by blast
  have f: "map item_questionId (questionEntries double defaultStorage [] studentC parentQ1)
       = [''Q1.A'', ''Q1.B''] @ [''Q1'']"
    "map item_category (questionEntries double defaultStorage [] studentC parentQ1)
       = [4, 0] @ [Min (set [4, 0])]"
    "map item_confidence (questionEntries double defaultStorage [] studentC parentQ1)
       = [90, 0] @ [Min (set [90, 0])]"
    using t by blast+
  have "length exampleItems =
          sum_list (map (\<lambda>st. sum_list (map (\<lambda>q. length (questionEntries double defaultStorage [] st q))
            [parentQ1])) [studentC])"
    using t example_list q u by blast
  then have m: "length exampleItems = 3" using l by simp
  show ?thesis using s n example_list q u l f m by simp
qed

section \<open>Aggregator: the global total\<close>

lemma calculate_unfold:
  assumes "questions r = Some qs" and "studentSubmissions r = Some subs"
  shows "calculateGradingStats rnd (Some r) p =
           Some (fold (questionStep rnd subs p (fdiv rnd 100 (of_nat (length qs)))) qs initialStats)"
  using assms by (simp add: calculateGradingStats_def Let_def)

lemma no_students_items: "fold (itemStep rnd [] p k w) items acc = acc"
  by (induction items arbitrary: acc) (simp_all add: itemStep_def)

lemma no_students_globalStats:
  "globalStats (fold (questionStep rnd [] p wq) qs acc) = globalStats acc"
  by (induction qs arbitrary: acc) (simp_all add: questionStep_globalStats no_students_items)

text \<open>
  C10, as stated, fails for the totals as computed: for three questions and three
  students the five category totals add up to exactly 100, while the separately
  accumulated \<open>totalWeight\<close> is 100.00000000000001.
\<close>

theorem totalWeight_rounding_counterexample:
  "map_option (totalWeight \<circ> globalStats)
     (calculateGradingStats double (Some threeByThreeRepository) exampleThresholds)
       = Some (7036874417766401 / 70368744177664)
   \<and> map_option (sum5 \<circ> globalStats)
     (calculateGradingStats double (Some threeByThreeRepository) exampleThresholds)
       = Some 100"
  by (simp add: threeByThreeRepository_def gradedStudent_def studentB_def exampleThresholds_def
      evaluation_defs example_operations scorePercentage_example sum5_def)

text \<open>
  C10, amended. Whenever \<open>calculateGradingStats\<close> returns a result, \<open>globalStats.totalWeight\<close>
  equals the sum of the five category totals in exact rational arithmetic; as computed
  in doubles the two differ by at most \<open>400 * (n + 4) * 2^-53\<close> for a repository of \<open>n\<close>
  (item, student) pairs with \<open>n + 4 \<le> 2^52\<close>, which is below \<open>10^-4\<close> up to \<open>10^9\<close> pairs.
  Degenerate repositories (no students, no questions) are included.
\<close>

theorem totalWeight_is_sum:
  "(calculateGradingStats exact repo p = Some res \<longrightarrow>
      totalWeight (globalStats res) =
        aiHigh (globalStats res) + aiLow (globalStats res) + lowScore (globalStats res)
          + gradedOnce (globalStats res) + graded2Plus (globalStats res))
   \<and> (calculateGradingStats double (Some r) p = Some res' \<and> questions r = Some qs
        \<and> studentSubmissions r = Some subs \<and> pairCount qs subs + 4 \<le> 2 ^ 52 \<longrightarrow>
      \<bar>totalWeight (globalStats res') -
         (aiHigh (globalStats res') + aiLow (globalStats res') + lowScore (globalStats res')
          + gradedOnce (globalStats res') + graded2Plus (globalStats res'))\<bar>
        \<le> 200 * (2 * of_nat (4 + pairCount qs subs) * unitRoundoff))
   \<and> (calculateGradingStats double (Some r) p = Some res' \<and> questions r = Some qs
        \<and> studentSubmissions r = Some subs \<and> pairCount qs subs \<le> 10 ^ 9 \<longrightarrow>
      \<bar>totalWeight (globalStats res') -
         (aiHigh (globalStats res') + aiLow (globalStats res') + lowScore (globalStats res')
          + gradedOnce (globalStats res') + graded2Plus (globalStats res'))\<bar>
        \<le> 1 / 10 ^ 4)"
proof -
  have ex: "totalWeight (globalStats res) = sum5 (globalStats res)"
    if "calculateGradingStats exact repo p = Some res"
  proof -
    from that obtain qs subs where
      "res = fold (questionStep exact subs p (fdiv exact 100 (of_nat (length qs)))) qs initialStats"
      by (auto simp: calculateGradingStats_def Let_def split: option.splits)
    then have "balanced res" by (simp add: exact_balanced)
    then show ?thesis by (simp add: balanced_def)
  qed
  have db: "\<bar>totalWeight (globalStats res') - sum5 (globalStats res')\<bar>
        \<le> 200 * (2 * of_nat (4 + pairCount qs subs) * unitRoundoff)"
    if c: "calculateGradingStats double (Some r) p = Some res'" and q: "questions r = Some qs"
      and s: "studentSubmissions r = Some subs" and n: "pairCount qs subs + 4 \<le> 2 ^ 52"
  proof -
    have res: "res' = fold (questionStep double subs p (fdiv double 100 (of_nat (length qs)))) qs initialStats"
      using c calculate_unfold[OF q s, of double p] by simp
    have nn: "0 \<le> 200 * (2 * of_nat (4 + pairCount qs subs) * unitRoundoff)"
      using unitRoundoff_pos by simp
    show ?thesis
    proof (cases "qs = [] \<or> subs = []")
      case True
      then have "globalStats res' = globalStats initialStats"
        unfolding res by (auto simp: no_students_globalStats)
      then show ?thesis using nn by (simp add: initialStats_def sum5_def)
    next
      case False
      then show ?thesis unfolding res using n by (intro double_totalWeight_tolerance(2)) simp_all
    qed
  qed
  have small: "200 * (2 * of_nat (4 + n) * unitRoundoff) \<le> 1 / 10 ^ 4" if "n \<le> 10 ^ 9" for n :: nat
  proof -
    have "(of_nat (4 + n) :: rat) \<le> of_nat (4 + 10 ^ 9)" using that by (simp only: of_nat_le_iff add_le_cancel_left)
    then have "(of_nat (4 + n) :: rat) \<le> 4 + 10 ^ 9" by simp
    then have "200 * (2 * of_nat (4 + n) * unitRoundoff) \<le> 200 * (2 * (4 + 10 ^ 9) * unitRoundoff)"
      using unitRoundoff_pos by (intro mult_left_mono mult_right_mono) simp_all
    also have "\<dots> \<le> 1 / 10 ^ 4" by (simp add: unitRoundoff_def)
    finally show ?thesis .
  qed
  have big: "n + 4 \<le> 2 ^ 52" if "n \<le> 10 ^ 9" for n :: nat
    using that by simp
  show ?thesis
    using ex db small big unfolding sum5_def by (meson order_trans)
qed

lemma oneByThree_size:
  "questions oneByThreeRepository = Some [questionQ1]"
  "studentSubmissions oneByThreeRepository = Some [studentA, studentB, studentB]"
  "pairCount [questionQ1] [studentA, studentB, studentB] = 3"
  by (simp_all add: oneByThreeRepository_def pairCount_def subItems_def questionQ1_def)

theorem totalWeight_is_sum_witness:
  "calculateGradingStats exact (Some exampleRepository) exampleThresholds = Some exampleResult
   \<and> totalWeight (globalStats exampleResult) =
       aiHigh (globalStats exampleResult) + aiLow (globalStats exampleResult)
         + lowScore (globalStats exampleResult) + gradedOnce (globalStats exampleResult)
         + graded2Plus (globalStats exampleResult)
   \<and> calculateGradingStats double (Some oneByThreeRepository) exampleThresholds
       = Some oneByThreeResult
   \<and> questions oneByThreeRepository = Some [questionQ1]
   \<and> studentSubmissions oneByThreeRepository = Some [studentA, studentB, studentB]
   \<and> pairCount [questionQ1] [studentA, studentB, studentB] + 4 \<le> 2 ^ 52
   \<and> pairCount [questionQ1] [studentA, studentB, studentB] \<le> 10 ^ 9
   \<and> \<bar>totalWeight (globalStats oneByThreeResult) -
         (aiHigh (globalStats oneByThreeResult) + aiLow (globalStats oneByThreeResult)
          + lowScore (globalStats oneByThreeResult) + gradedOnce (globalStats oneByThreeResult)
          + graded2Plus (globalStats oneByThreeResult))\<bar>
       \<le> 200 * (2 * of_nat (4 + pairCount [questionQ1] [studentA, studentB, studentB])
                  * unitRoundoff)
   \<and> \<bar>totalWeight (globalStats oneByThreeResult) -
         (aiHigh (globalStats oneByThreeResult) + aiLow (globalStats oneByThreeResult)
          + lowScore (globalStats oneByThreeResult) + gradedOnce (globalStats oneByThreeResult)
          + graded2Plus (globalStats oneByThreeResult))\<bar> \<le> 1 / 10 ^ 4"
proof -
  note t = totalWeight_is_sum [where repo = "Some exampleRepository" and p = exampleThresholds
      and res = exampleResult and r = oneByThreeRepository and res' = oneByThreeResult
      and qs = "[questionQ1]" and subs = "[studentA, studentB, studentB]"]
  have n: "pairCount [questionQ1] [studentA, studentB, studentB] + 4 \<le> 2 ^ 52"
    "pairCount [questionQ1] [studentA, studentB, studentB] \<le> 10 ^ 9"
    by (simp_all add: oneByThree_size)
  have a: "totalWeight (globalStats exampleResult) =
       aiHigh (globalStats exampleResult) + aiLow (globalStats exampleResult)
         + lowScore (globalStats exampleResult) + gradedOnce (globalStats exampleResult)
         + graded2Plus (globalStats exampleResult)"
    using t example_stats_exact by blast
  have b: "\<bar>totalWeight (globalStats oneByThreeResult) -
         (aiHigh (globalStats oneByThreeResult) + aiLow (globalStats oneByThreeResult)
          + lowScore (globalStats oneByThreeResult) + gradedOnce (globalStats oneByThreeResult)
          + graded2Plus (globalStats oneByThreeResult))\<bar> \<le> 1 / 10 ^ 4"
    using t oneByThree_stats oneByThree_size(1,2) n(2) by blast
  have c: "\<bar>totalWeight (globalStats oneByThreeResult) -
         (aiHigh (globalStats oneByThreeResult) + aiLow (globalStats oneByThreeResult)
          + lowScore (globalStats oneByThreeResult) + gradedOnce (globalStats oneByThreeResult)
          + graded2Plus (globalStats oneByThreeResult))\<bar>
       \<le> 200 * (2 * of_nat (4 + pairCount [questionQ1] [studentA, studentB, studentB])
                  * unitRoundoff)"
    using t oneByThree_stats oneByThree_size(1,2) n(1) by blast
  show ?thesis
    using example_stats_exact a oneByThree_stats oneByThree_size(1,2) n b c by blast
qed

text \<open>
  C2, as stated, fails for a repository with students but without any top-level
  question: every question (there is none) has a gradable item, yet no contribution is
  ever added and \<open>totalWeight\<close> stays 0, in exact arithmetic and as computed.
\<close>

theorem totalWeight_no_questions_counterexample:
  "map_option (totalWeight \<circ> globalStats)
     (calculateGradingStats exact (Some noQuestionsRepository) exampleThresholds) = Some 0
   \<and> map_option (totalWeight \<circ> globalStats)
     (calculateGradingStats double (Some noQuestionsRepository) exampleThresholds) = Some 0"
  by (simp add: noQuestionsRepository_def calculateGradingStats_def initialStats_def Let_def)

text \<open>
  C2, amended. For every repository with at least one top-level question and at least
  one student submission, and for every threshold setting, the \<open>globalStats.totalWeight\<close>
  returned by \<open>calculateGradingStats\<close> equals 100 exactly in exact rational arithmetic,
  and as computed in doubles it is within the relative tolerance \<open>2 * (n + 4) * 2^-53\<close> of
  100 for a repository of \<open>n\<close> (item, student) pairs with \<open>n + 4 \<le> 2^52\<close>: within \<open>10^-6\<close>
  relative up to \<open>10^9\<close> pairs. (Every top-level question has a gradable leaf item by
  construction, see \<open>subItems_nonempty\<close>.)
\<close>

theorem totalWeight_is_100:
  assumes "questions r = Some qs" and "qs \<noteq> []"
    and "studentSubmissions r = Some subs" and "subs \<noteq> []"
  shows "map_option (totalWeight \<circ> globalStats) (calculateGradingStats exact (Some r) p) = Some 100
    \<and> (pairCount qs subs + 4 \<le> 2 ^ 52 \<longrightarrow>
         (\<exists>T. map_option (totalWeight \<circ> globalStats) (calculateGradingStats double (Some r) p) = Some T
              \<and> \<bar>T - 100\<bar> \<le> 100 * (2 * of_nat (4 + pairCount qs subs) * unitRoundoff)))
    \<and> (pairCount qs subs \<le> 10 ^ 9 \<longrightarrow>
         (\<exists>T. map_option (totalWeight \<circ> globalStats) (calculateGradingStats double (Some r) p) = Some T
              \<and> \<bar>T - 100\<bar> \<le> 100 / 10 ^ 6))"
proof -
  let ?resD = "fold (questionStep double subs p (fdiv double 100 (of_nat (length qs)))) qs initialStats"
  let ?T = "totalWeight (globalStats ?resD)"
  have ex: "map_option (totalWeight \<circ> globalStats) (calculateGradingStats exact (Some r) p) = Some 100"
    unfolding calculate_unfold[OF assms(1,3)] using exact_totalWeight[OF assms(2,4)] by simp
  have d: "map_option (totalWeight \<circ> globalStats) (calculateGradingStats double (Some r) p) = Some ?T"
    unfolding calculate_unfold[OF assms(1,3)] by simp
  have tol: "\<bar>?T - 100\<bar> \<le> 100 * (2 * of_nat (4 + pairCount qs subs) * unitRoundoff)"
    if "pairCount qs subs + 4 \<le> 2 ^ 52"
    using assms(2,4) that by (rule double_totalWeight_tolerance(1))
  have small: "100 * (2 * of_nat (4 + n) * unitRoundoff) \<le> 100 / 10 ^ 6" if "n \<le> 10 ^ 9" for n :: nat
  proof -
    have "(of_nat (4 + n) :: rat) \<le> of_nat (4 + 10 ^ 9)"
      using that by (simp only: of_nat_le_iff add_le_cancel_left)
    then have "(of_nat (4 + n) :: rat) \<le> 4 + 10 ^ 9" by simp
    then have "100 * (2 * of_nat (4 + n) * unitRoundoff) \<le> 100 * (2 * (4 + 10 ^ 9) * unitRoundoff)"
      using unitRoundoff_pos by (intro mult_left_mono mult_right_mono) simp_all
    also have "\<dots> \<le> 100 / 10 ^ 6" by (simp add: unitRoundoff_def)
    finally show ?thesis .
  qed
  have big: "n + 4 \<le> 2 ^ 52" if "n \<le> 10 ^ 9" for n :: nat
    using that by simp
  have tol2: "\<bar>?T - 100\<bar> \<le> 100 / 10 ^ 6" if "pairCount qs subs \<le> 10 ^ 9"
    using tol[OF big[OF that]] small[OF that] by (rule order_trans)
  from ex d tol tol2 show ?thesis by blast
qed

theorem totalWeight_is_100_witness:
  "questions oneByThreeRepository = Some [questionQ1] \<and> [questionQ1] \<noteq> []
   \<and> studentSubmissions oneByThreeRepository = Some [studentA, studentB, studentB]
   \<and> [studentA, studentB, studentB] \<noteq> []
   \<and> pairCount [questionQ1] [studentA, studentB, studentB] + 4 \<le> 2 ^ 52
   \<and> pairCount [questionQ1] [studentA, studentB, studentB] \<le> 10 ^ 9
   \<and> map_option (totalWeight \<circ> globalStats)
        (calculateGradingStats exact (Some oneByThreeRepository) exampleThresholds) = Some 100
   \<and> map_option (totalWeight \<circ> globalStats)
        (calculateGradingStats double (Some oneByThreeRepository) exampleThresholds)
        = Some (7036874417766399 / 70368744177664)
   \<and> \<bar>7036874417766399 / 70368744177664 - (100::rat)\<bar>
       \<le> 100 * (2 * of_nat (4 + pairCount [questionQ1] [studentA, studentB, studentB])
                  * unitRoundoff)
   \<and> \<bar>7036874417766399 / 70368744177664 - (100::rat)\<bar> \<le> 100 / 10 ^ 6"
proof -
  have n: "[questionQ1] \<noteq> []" "[studentA, studentB, studentB] \<noteq> []" by simp_all
  note t = totalWeight_is_100 [OF oneByThree_size(1) n(1) oneByThree_size(2) n(2),
      of exampleThresholds]
  have s: "pairCount [questionQ1] [studentA, studentB, studentB] + 4 \<le> 2 ^ 52"
    "pairCount [questionQ1] [studentA, studentB, studentB] \<le> 10 ^ 9"
    by (simp_all add: oneByThree_size)
  have e: "map_option (totalWeight \<circ> globalStats)
        (calculateGradingStats exact (Some oneByThreeRepository) exampleThresholds) = Some 100"
    using t by blast
  have d: "map_option (totalWeight \<circ> globalStats)
        (calculateGradingStats double (Some oneByThreeRepository) exampleThresholds)
        = Some (7036874417766399 / 70368744177664)"
    by (simp add: oneByThree_stats oneByThreeResult_def)
  have a: "\<bar>7036874417766399 / 70368744177664 - (100::rat)\<bar> \<le> 100 / 10 ^ 6"
    using t s(2) unfolding d by blast
  have b: "\<bar>7036874417766399 / 70368744177664 - (100::rat)\<bar>
       \<le> 100 * (2 * of_nat (4 + pairCount [questionQ1] [studentA, studentB, studentB])
                  * unitRoundoff)"
    using t s(1) unfolding d by blast
  from oneByThree_size(1,2) n s e d a b show ?thesis by blast
qed

section \<open>Aggregator: the per-question percentages\<close>

text \<open>
  C7. After aggregation every top-level question has an entry in \<open>questionStats\<close> under
  its id, and if the \<open>totalCount\<close> of that entry is positive, its five category
  percentages add up to exactly 100 in exact rational arithmetic; as computed in doubles
  they add up to 100 within \<open>400 * 2^-53\<close> (below \<open>10^-13\<close>), the counters themselves being
  exact as long as the repository has at most \<open>2^53\<close> (item, student) pairs.
\<close>

theorem question_percentages_sum_100:
  "(calculateGradingStats exact (Some r) p = Some res \<and> questions r = Some qs \<and> q \<in> set qs \<longrightarrow>
      (\<exists>e. questionStats res (question_id q) = Some e
         \<and> (0 < totalCount e \<longrightarrow>
              aiHigh e + aiLow e + lowScore e + gradedOnce e + graded2Plus e = 100)))
   \<and> (calculateGradingStats double (Some r) p = Some res' \<and> questions r = Some qs
        \<and> studentSubmissions r = Some subs \<and> q \<in> set qs \<and> pairCount qs subs \<le> 2 ^ 53 \<longrightarrow>
      (\<exists>e. questionStats res' (question_id q) = Some e
         \<and> (0 < totalCount e \<longrightarrow>
              \<bar>aiHigh e + aiLow e + lowScore e + gradedOnce e + graded2Plus e - 100\<bar>
                \<le> 400 * unitRoundoff
              \<and> \<bar>aiHigh e + aiLow e + lowScore e + gradedOnce e + graded2Plus e - 100\<bar>
                \<le> 1 / 10 ^ 13)))"
proof -
  have ex: "\<exists>e. questionStats res (question_id q) = Some e
         \<and> (0 < totalCount e \<longrightarrow> sum5 e = 100)"
    if c: "calculateGradingStats exact (Some r) p = Some res" and qs: "questions r = Some qs"
      and q: "q \<in> set qs"
  proof -
    from c qs obtain subs where
      res: "res = fold (questionStep exact subs p (fdiv exact 100 (of_nat (length qs)))) qs initialStats"
      by (auto simp: calculateGradingStats_def Let_def split: option.splits)
    have ok: "pctOK (questionStats res)" unfolding res by (rule questions_pctOK)
    have "question_id q \<in> dom (questionStats res)"
      unfolding res questions_exact_dom using q by simp
    then obtain e where "questionStats res (question_id q) = Some e" by blast
    with ok show ?thesis by (auto simp: pctOK_def)
  qed
  have small: "400 * unitRoundoff \<le> 1 / 10 ^ 13" by (simp add: unitRoundoff_def)
  have db: "\<exists>e. questionStats res' (question_id q) = Some e
         \<and> (0 < totalCount e \<longrightarrow> \<bar>sum5 e - 100\<bar> \<le> 400 * unitRoundoff
              \<and> \<bar>sum5 e - 100\<bar> \<le> 1 / 10 ^ 13)"
    if c: "calculateGradingStats double (Some r) p = Some res'" and qs: "questions r = Some qs"
      and s: "studentSubmissions r = Some subs" and q: "q \<in> set qs"
      and n: "pairCount qs subs \<le> 2 ^ 53"
  proof -
    have res: "res' = fold (questionStep double subs p (fdiv double 100 (of_nat (length qs)))) qs initialStats"
      using c calculate_unfold[OF qs s, of double p] by simp
    have each: "\<forall>q\<in>set qs. length (subItems q) * length subs \<le> 2 ^ 53"
      using pairCount_ge_pair[of _ qs subs] n by (meson order_trans)
    have "pctNear (questionStats initialStats)" by (simp add: pctNear_def initialStats_def)
    with each have ok: "pctNear (questionStats res')" unfolding res by (rule questions_pctNear)
    have "question_id q \<in> dom (questionStats res')"
      unfolding res questions_double_dom[OF each] using q by simp
    then obtain e where e: "questionStats res' (question_id q) = Some e" by blast
    have "\<bar>sum5 e - 100\<bar> \<le> 400 * unitRoundoff \<and> \<bar>sum5 e - 100\<bar> \<le> 1 / 10 ^ 13"
      if "0 < totalCount e"
      using ok e that small unfolding pctNear_def by (meson order_trans)
    with e show ?thesis by blast
  qed
  from ex db show ?thesis unfolding sum5_def by blast
qed

theorem question_percentages_sum_100_witness:
  "calculateGradingStats exact (Some oneByThreeRepository) exampleThresholds = Some oneByThreeExact
   \<and> calculateGradingStats double (Some oneByThreeRepository) exampleThresholds
       = Some oneByThreeResult
   \<and> questions oneByThreeRepository = Some [questionQ1] \<and> questionQ1 \<in> set [questionQ1]
   \<and> studentSubmissions oneByThreeRepository = Some [studentA, studentB, studentB]
   \<and> pairCount [questionQ1] [studentA, studentB, studentB] \<le> 2 ^ 53
   \<and> (\<exists>e. questionStats oneByThreeExact (question_id questionQ1) = Some e
         \<and> 0 < totalCount e
         \<and> aiHigh e + aiLow e + lowScore e + gradedOnce e + graded2Plus e = 100)
   \<and> (\<exists>e. questionStats oneByThreeResult (question_id questionQ1) = Some e
         \<and> 0 < totalCount e
         \<and> aiHigh e + aiLow e + lowScore e + gradedOnce e + graded2Plus e
             = 7036874417766399 / 70368744177664
         \<and> \<bar>aiHigh e + aiLow e + lowScore e + gradedOnce e + graded2Plus e - 100\<bar>
             \<le> 400 * unitRoundoff)"
proof -
  note t = question_percentages_sum_100 [where r = oneByThreeRepository and p = exampleThresholds
      and res = oneByThreeExact and res' = oneByThreeResult and qs = "[questionQ1]"
      and q = questionQ1 and subs = "[studentA, studentB, studentB]"]
  have q: "questionQ1 \<in> set [questionQ1]" by simp
  have n: "pairCount [questionQ1] [studentA, studentB, studentB] \<le> 2 ^ 53"
    by (simp add: oneByThree_size)
  define x where "x = \<lparr>aiHigh = 100 / 3, aiLow = 200 / 3, lowScore = 0, gradedOnce = 0,
      graded2Plus = 0, totalCount = (3::rat)\<rparr>"
  have x: "questionStats oneByThreeExact (question_id questionQ1) = Some x"
    by (simp add: oneByThreeExact_def questionQ1_def x_def)
  have xpos: "0 < totalCount x" by (simp add: x_def)
  have "\<exists>e'. questionStats oneByThreeExact (question_id questionQ1) = Some e'
         \<and> (0 < totalCount e' \<longrightarrow>
              aiHigh e' + aiLow e' + lowScore e' + gradedOnce e' + graded2Plus e' = 100)"
    using t oneByThree_stats_exact oneByThree_size(1) q by blast
  then have xs: "aiHigh x + aiLow x + lowScore x + gradedOnce x + graded2Plus x = 100"
    using x xpos by auto
  have a: "\<exists>e. questionStats oneByThreeExact (question_id questionQ1) = Some e
         \<and> 0 < totalCount e
         \<and> aiHigh e + aiLow e + lowScore e + gradedOnce e + graded2Plus e = 100"
    using x xpos xs by blast
  define e where "e = \<lparr>aiHigh = 2345624805922133 / 70368744177664,
      aiLow = 2345624805922133 / 35184372088832,
      lowScore = 0, gradedOnce = 0, graded2Plus = 0, totalCount = (3::rat)\<rparr>"
  have e: "questionStats oneByThreeResult (question_id questionQ1) = Some e"
    by (simp add: oneByThreeResult_def questionQ1_def e_def)
  have pos: "0 < totalCount e" by (simp add: e_def)
  have v: "aiHigh e + aiLow e + lowScore e + gradedOnce e + graded2Plus e
             = 7036874417766399 / 70368744177664"
    by (simp add: e_def)
  have "\<exists>e'. questionStats oneByThreeResult (question_id questionQ1) = Some e'
         \<and> (0 < totalCount e' \<longrightarrow>
              \<bar>aiHigh e' + aiLow e' + lowScore e' + gradedOnce e' + graded2Plus e' - 100\<bar>
                \<le> 400 * unitRoundoff
              \<and> \<bar>aiHigh e' + aiLow e' + lowScore e' + gradedOnce e' + graded2Plus e' - 100\<bar>
                \<le> 1 / 10 ^ 13)"
    using t oneByThree_stats oneByThree_size(1,2) q n by blast
  then have tol: "\<bar>aiHigh e + aiLow e + lowScore e + gradedOnce e + graded2Plus e - 100\<bar>
                \<le> 400 * unitRoundoff"
    using e pos by auto
  have b: "\<exists>e. questionStats oneByThreeResult (question_id questionQ1) = Some e
         \<and> 0 < totalCount e
         \<and> aiHigh e + aiLow e + lowScore e + gradedOnce e + graded2Plus e
             = 7036874417766399 / 70368744177664
         \<and> \<bar>aiHigh e + aiLow e + lowScore e + gradedOnce e + graded2Plus e - 100\<bar>
             \<le> 400 * unitRoundoff"
    using e pos v tol by blast
  from oneByThree_stats_exact oneByThree_stats oneByThree_size(1,2) q n a b show ?thesis by blast
qed

end
